theory Spec2Isabelle
  imports Complex_Main "HOL-Library.Word"
begin

section \<open>Python strings\<close>

text \<open>
  A Python \<open>str\<close> is a sequence of code points. URIs, identifiers, file names and the
  literals of the two servers are modelled as Isabelle strings, whose characters are the
  code points 0 to 255. Text decoded from a file may hold any code point and is a list
  of naturals (type \<open>unicode\<close>).
\<close>

type_synonym unicode = "nat list"

text \<open>\<open>str.lower\<close> on code points below 256: the letters A to Z and the upper-case
  letters of Latin-1 (0xC0 to 0xDE, without the multiplication sign 0xD7) move up by 32;
  every other character is unchanged.\<close>

definition lower_char :: "char \<Rightarrow> char" where
  "lower_char c =
     (let n = (of_char c :: nat) in
      if (65 \<le> n \<and> n \<le> 90) \<or> (192 \<le> n \<and> n \<le> 222 \<and> n \<noteq> 215)
      then char_of (n + 32) else c)"

definition lower :: "string \<Rightarrow> string" where
  "lower s = map lower_char s"

definition startswith :: "string \<Rightarrow> string \<Rightarrow> bool" where
  "startswith s p = (take (length p) s = p)"

definition endswith :: "string \<Rightarrow> string \<Rightarrow> bool" where
  "endswith s p = (length p \<le> length s \<and> drop (length s - length p) s = p)"

text \<open>\<open>s.split(sep)\<close> for a separator of one character: the pieces between the
  separators, empty pieces included; the result is never empty.\<close>

fun str_split :: "char \<Rightarrow> string \<Rightarrow> string list" where
  "str_split sep [] = [[]]"
| "str_split sep (c # cs) =
     (if c = sep then [] # str_split sep cs
      else (case str_split sep cs of
              [] \<Rightarrow> [[c]]
            | p # ps \<Rightarrow> (c # p) # ps))"

text \<open>\<open>sep.join(parts)\<close>.\<close>

fun str_join :: "string \<Rightarrow> string list \<Rightarrow> string" where
  "str_join sep [] = []"
| "str_join sep [p] = p"
| "str_join sep (p # q # ps) = p @ sep @ str_join sep (q # ps)"

section \<open>Errors and results of the handlers\<close>

text \<open>Every exception a handler can raise is a value: \<open>ValueError\<close> carries the
  message the source formats; the other constructors are the exceptions the library
  calls raise.\<close>

datatype error =
    ValueError string
  | TypeError
  | IsADirectoryError
  | UnicodeDecodeError
  | OverflowError

text \<open>\<open>TextContent(type="text", text=...)\<close> and
  \<open>BlobContent(type="blob", blob=..., mimeType=...)\<close>, the arguments in this order.\<close>

datatype 'str content =
    TextContent 'str
  | BlobContent string string

datatype 'str read_result = ReadResourceResult (contents: "'str content list")

record Resource =
  uri :: string
  name :: string
  mimeType :: string
  description :: string

section \<open>\<open>json.dumps(obj, indent=2)\<close>\<close>

text \<open>The values the resource server serialises: strings, booleans, lists and
  dictionaries (in insertion order).\<close>

datatype json =
    JString string
  | JBool bool
  | JArray "json list"
  | JObject "(string \<times> json) list"

definition hex_digit :: "nat \<Rightarrow> char" where
  "hex_digit n = (''0123456789abcdef'') ! (n mod 16)"

text \<open>The escapes of \<open>json.dumps\<close> with \<open>ensure_ascii\<close>: the quote, the backslash and
  the five short control escapes; any other character outside space to tilde becomes
  \<open>\u00XX\<close>.\<close>

definition json_escape_char :: "char \<Rightarrow> string" where
  \<open>json_escape_char c =
     (let n = (of_char c :: nat) in
      if c = CHR 0x22 then [CHR 0x5C, CHR 0x22]
      else if c = CHR 0x5C then [CHR 0x5C, CHR 0x5C]
      else if n = 10 then [CHR 0x5C, CHR ''n'']
      else if n = 13 then [CHR 0x5C, CHR ''r'']
      else if n = 9 then [CHR 0x5C, CHR ''t'']
      else if n = 8 then [CHR 0x5C, CHR ''b'']
      else if n = 12 then [CHR 0x5C, CHR ''f'']
      else if n < 32 \<or> 126 < n
        then [CHR 0x5C, CHR ''u'', CHR ''0'', CHR ''0'', hex_digit (n div 16), hex_digit n]
      else [c])\<close>

definition json_string :: "string \<Rightarrow> string" where
  "json_string s = [CHR 0x22] @ concat (map json_escape_char s) @ [CHR 0x22]"

definition json_indent :: "nat \<Rightarrow> string" where
  "json_indent level = replicate (2 * level) CHR '' ''"

text \<open>\<open>sep\<close> between the items is a comma, a newline and the indentation of the
  items.\<close>

definition json_block :: "nat \<Rightarrow> char \<Rightarrow> char \<Rightarrow> string list \<Rightarrow> string" where
  "json_block level l r items =
     (if items = [] then [l, r]
      else [l] @ [CHR 0x0A] @ json_indent (Suc level)
           @ str_join ([CHR '',''] @ [CHR 0x0A] @ json_indent (Suc level)) items
           @ [CHR 0x0A] @ json_indent level @ [r])"

fun dumps_at :: "nat \<Rightarrow> json \<Rightarrow> string"
  and dumps_items :: "nat \<Rightarrow> json list \<Rightarrow> string list"
  and dumps_members :: "nat \<Rightarrow> (string \<times> json) list \<Rightarrow> string list" where
  "dumps_at level (JString s) = json_string s"
| "dumps_at level (JBool b) = (if b then ''true'' else ''false'')"
| "dumps_at level (JArray xs) = json_block level CHR ''['' CHR '']'' (dumps_items (Suc level) xs)"
| "dumps_at level (JObject kvs) = json_block level CHR ''{'' CHR ''}'' (dumps_members (Suc level) kvs)"
| "dumps_items level [] = []"
| "dumps_items level (x # xs) = dumps_at level x # dumps_items level xs"
| "dumps_members level [] = []"
| "dumps_members level ((k, v) # kvs) =
     (json_string k @ '': '' @ dumps_at level v) # dumps_members level kvs"

definition json_dumps :: "json \<Rightarrow> string" where
  "json_dumps j = dumps_at 0 j"

section \<open>The resource server (\<open>chapter03/resource-server/python/server.py\<close>)\<close>


definition handbook_text :: string where
  "handbook_text =
     ''# Company Handbook\<newline>'' @
     ''\<newline>'' @
     ''## Mission Statement\<newline>'' @
     ''We build tools that empower developers to create better software.\<newline>'' @
     ''\<newline>'' @
     ''## Core Values\<newline>'' @
     ''- **Quality**: We ship code we're proud of\<newline>'' @
     ''- **Collaboration**: We succeed as a team\<newline>'' @
     ''- **Transparency**: We communicate openly and honestly\<newline>'' @
     ''- **Growth**: We continuously learn and improve\<newline>'' @
     ''\<newline>'' @
     ''## Policies\<newline>'' @
     ''\<newline>'' @
     ''### Remote Work\<newline>'' @
     ''All team members may work remotely. Core hours are 10am-3pm in your local timezone.\<newline>'' @
     ''\<newline>'' @
     ''### Code Review\<newline>'' @
     ''All code changes require at least one approving review before merge.\<newline>'' @
     ''\<newline>'' @
     ''### On-Call\<newline>'' @
     ''Engineering teams rotate on-call responsibilities weekly.\<newline>''"

definition coding_standards_text :: string where
  "coding_standards_text =
     ''# Coding Standards\<newline>'' @
     ''\<newline>'' @
     ''## General Principles\<newline>'' @
     ''- Write self-documenting code with clear naming\<newline>'' @
     ''- Keep functions small and focused (< 20 lines preferred)\<newline>'' @
     ''- Prefer composition over inheritance\<newline>'' @
     ''\<newline>'' @
     ''## C# Specific\<newline>'' @
     ''- Use `var` when the type is obvious from the right side\<newline>'' @
     ''- Prefer `async/await` over raw `Task` continuations\<newline>'' @
     ''- Use records for immutable data types\<newline>'' @
     ''- Enable nullable reference types in all projects\<newline>'' @
     ''\<newline>'' @
     ''## Testing\<newline>'' @
     ''- Aim for 80%+ code coverage on business logic\<newline>'' @
     ''- Use descriptive test names: `MethodName_Scenario_ExpectedResult`\<newline>'' @
     ''- Mock external dependencies, not internal classes\<newline>''"

definition api_docs :: json where
  "api_docs =
     JObject [(''endpoints'', JArray
       [JObject [(''path'', JString ''/api/users''), (''method'', JString ''GET''),
                 (''description'', JString ''List all users''),
                 (''auth'', JString ''required'')],
        JObject [(''path'', JString ''/api/users/{id}''), (''method'', JString ''GET''),
                 (''description'', JString ''Get user by ID''),
                 (''auth'', JString ''required'')],
        JObject [(''path'', JString ''/api/projects''), (''method'', JString ''GET''),
                 (''description'', JString ''List all projects''),
                 (''auth'', JString ''required'')]])]"

definition get_user_preferences :: "string \<Rightarrow> json" where
  "get_user_preferences user_id =
     (let user_id_lower = lower user_id in
      if user_id_lower = ''alice'' then
        JObject [(''theme'', JString ''dark''), (''language'', JString ''en''),
                 (''notifications'', JBool True),
                 (''timezone'', JString ''America/New_York'')]
      else if user_id_lower = ''bob'' then
        JObject [(''theme'', JString ''light''), (''language'', JString ''es''),
                 (''notifications'', JBool False),
                 (''timezone'', JString ''Europe/Madrid'')]
      else
        JObject [(''theme'', JString ''system''), (''language'', JString ''en''),
                 (''notifications'', JBool True),
                 (''timezone'', JString ''UTC'')])"

definition get_project_settings :: "string \<Rightarrow> json" where
  "get_project_settings project_id =
     (let project_id_lower = lower project_id in
      if project_id_lower = ''frontend'' then
        JObject [(''framework'', JString ''React''), (''buildTool'', JString ''Vite''),
                 (''testRunner'', JString ''Vitest''), (''linter'', JString ''ESLint''),
                 (''deployTarget'', JString ''Vercel'')]
      else if project_id_lower = ''backend'' then
        JObject [(''framework'', JString ''ASP.NET Core''),
                 (''database'', JString ''PostgreSQL''), (''cache'', JString ''Redis''),
                 (''testRunner'', JString ''xUnit''), (''deployTarget'', JString ''Azure'')]
      else if project_id_lower = ''mobile'' then
        JObject [(''framework'', JString ''MAUI''),
                 (''platforms'', JArray [JString ''iOS'', JString ''Android'']),
                 (''testRunner'', JString ''NUnit''),
                 (''deployTarget'', JString ''App Store / Play Store'')]
      else
        JObject [(''framework'', JString ''Unknown''),
                 (''note'', JString (''No configuration found for project ''
                                     @ [CHR 0x27] @ project_id @ [CHR 0x27]))])"

definition text_result :: "string \<Rightarrow> error + string read_result" where
  "text_result t = Inr (ReadResourceResult [TextContent t])"

text \<open>The handler. A template branch whose \<open>len(parts) >= 4\<close> test fails falls out of
  the \<open>if\<close> chain to the final \<open>raise\<close>, as does a URI that no branch accepts.\<close>

definition read_resource :: "string \<Rightarrow> error + string read_result" where
  "read_resource u =
     (let not_found = Inl (ValueError (''Resource not found: '' @ u)) in
      if u = ''docs://company/handbook'' then text_result handbook_text
      else if u = ''docs://company/coding-standards'' then text_result coding_standards_text
      else if u = ''docs://api/endpoints'' then text_result (json_dumps api_docs)
      else if startswith u ''config://user/'' \<and> endswith u ''/preferences'' then
        (let parts = str_split CHR ''/'' u in
         if length parts \<ge> 4 then
           (let user_id = parts ! 3;
                preferences = get_user_preferences user_id
            in text_result (json_dumps preferences))
         else not_found)
      else if startswith u ''config://project/'' \<and> endswith u ''/settings'' then
        (let parts = str_split CHR ''/'' u in
         if length parts \<ge> 4 then
           (let project_id = parts ! 3;
                settings = get_project_settings project_id
            in text_result (json_dumps settings))
         else not_found)
      else not_found)"

section \<open>The filesystem server (\<open>chapter03/filesystem-server/python/server.py\<close>)\<close>

type_synonym byte = "8 word"

subsection \<open>\<open>pathlib\<close> on POSIX\<close>

text \<open>A path is its anchor (absolute or not) and its components. \<open>Path(s)\<close> splits at
  \<open>/\<close> and drops the empty components and the components \<open>.\<close>; \<open>..\<close> stays. Two
  leading slashes are read as one, as \<open>resolve()\<close> makes them. \<open>os.sep\<close> is \<open>/\<close>, so
  the source's \<open>replace\<close> calls between \<open>/\<close> and \<open>os.sep\<close> change nothing.\<close>

record PosixPath =
  is_absolute :: bool
  path_parts :: "string list"

definition Path :: "string \<Rightarrow> PosixPath" where
  "Path s = \<lparr>is_absolute = startswith s ''/'',
             path_parts = filter (\<lambda>p. p \<noteq> [] \<and> p \<noteq> ''.'') (str_split CHR ''/'' s)\<rparr>"

text \<open>\<open>p / s\<close>: an absolute right operand replaces the left one.\<close>

definition joinpath :: "PosixPath \<Rightarrow> string \<Rightarrow> PosixPath" where
  "joinpath p s =
     (let q = Path s in
      if is_absolute q then q
      else \<lparr>is_absolute = is_absolute p, path_parts = path_parts p @ path_parts q\<rparr>)"

definition path_str :: "PosixPath \<Rightarrow> string" where
  "path_str p =
     (if is_absolute p then ''/'' @ str_join ''/'' (path_parts p)
      else if path_parts p = [] then ''.''
      else str_join ''/'' (path_parts p))"

text \<open>\<open>p.name\<close> and \<open>p.suffix\<close>: the suffix starts at the last dot of the name, when
  that dot is neither the first nor the last character.\<close>

definition path_name :: "PosixPath \<Rightarrow> string" where
  "path_name p = (if path_parts p = [] then [] else last (path_parts p))"

definition rfind :: "char \<Rightarrow> string \<Rightarrow> nat option" where
  "rfind c s =
     (if c \<in> set s then Some (length s - Suc (length (takeWhile (\<lambda>x. x \<noteq> c) (rev s))))
      else None)"

definition path_suffix :: "PosixPath \<Rightarrow> string" where
  "path_suffix p =
     (let nm = path_name p in
      case rfind CHR ''.'' nm of
        None \<Rightarrow> []
      | Some i \<Rightarrow> if 0 < i \<and> i < length nm - 1 then drop i nm else [])"

text \<open>\<open>p.resolve()\<close> on a filesystem without symbolic links: the path is made absolute
  with the working directory, and each \<open>..\<close> removes the component before it (at the
  root it removes nothing). Components that do not exist are kept.\<close>

fun resolve_parts :: "string list \<Rightarrow> string list \<Rightarrow> string list" where
  "resolve_parts cur [] = cur"
| "resolve_parts cur (p # ps) =
     (if p = ''..'' then resolve_parts (butlast cur) ps else resolve_parts (cur @ [p]) ps)"

definition resolve :: "string list \<Rightarrow> PosixPath \<Rightarrow> PosixPath" where
  "resolve wd p =
     \<lparr>is_absolute = True,
      path_parts = resolve_parts (if is_absolute p then [] else wd) (path_parts p)\<rparr>"

subsection \<open>The filesystem\<close>

text \<open>A tree of directories and regular files, without symbolic links. A directory
  lists its entries in the order the operating system reports them.\<close>

datatype node = File "byte list" | Dir "(string \<times> node) list"

fun lookup :: "node \<Rightarrow> string list \<Rightarrow> node option" where
  "lookup n [] = Some n"
| "lookup (File bs) (c # cs) = None"
| "lookup (Dir es) (c # cs) = (case map_of es c of None \<Rightarrow> None | Some n \<Rightarrow> lookup n cs)"

text \<open>The operating system follows a path component by component; every component it
  leaves must be a directory.\<close>

fun walk :: "node \<Rightarrow> string list \<Rightarrow> string list \<Rightarrow> string list option" where
  "walk fs cur [] = Some cur"
| "walk fs cur (p # ps) =
     (case lookup fs cur of
        Some (Dir es) \<Rightarrow> walk fs (if p = ''..'' then butlast cur else cur @ [p]) ps
      | _ \<Rightarrow> None)"

record fs_state =
  tree :: node
  cwd :: "string list"
  RESOURCE_FOLDER :: "PosixPath option"

definition stat :: "fs_state \<Rightarrow> PosixPath \<Rightarrow> node option" where
  "stat st p =
     (case walk (tree st) (if is_absolute p then [] else cwd st) (path_parts p) of
        None \<Rightarrow> None
      | Some q \<Rightarrow> lookup (tree st) q)"

text \<open>\<open>d.rglob("*")\<close>, as paths relative to \<open>d\<close>: the entries of \<open>d\<close>, then those of each
  directory below it.\<close>

fun rglob :: "node \<Rightarrow> string list list" where
  "rglob (File bs) = []"
| "rglob (Dir es) =
     map (\<lambda>e. [fst e]) es @ concat (map (\<lambda>e. map ((#) (fst e)) (rglob (snd e))) es)"

subsection \<open>Reading files\<close>

text \<open>The strict UTF-8 decoder: shortest encodings only, no surrogates, nothing above
  U+10FFFF. \<open>None\<close> is \<open>UnicodeDecodeError\<close>.\<close>

definition continuation :: "byte \<Rightarrow> bool" where
  "continuation b = (0x80 \<le> unat b \<and> unat b \<le> 0xBF)"

fun utf8_decode :: "byte list \<Rightarrow> unicode option" where
  "utf8_decode [] = Some []"
| "utf8_decode (b0 # bs) =
     (let n0 = unat b0 in
      if n0 < 0x80 then map_option ((#) n0) (utf8_decode bs)
      else if 0xC2 \<le> n0 \<and> n0 \<le> 0xDF then
        (case bs of
           b1 # r \<Rightarrow>
             if continuation b1
             then map_option ((#) ((n0 - 0xC0) * 64 + (unat b1 - 0x80))) (utf8_decode r)
             else None
         | _ \<Rightarrow> None)
      else if 0xE0 \<le> n0 \<and> n0 \<le> 0xEF then
        (case bs of
           b1 # b2 # r \<Rightarrow>
             if (if n0 = 0xE0 then 0xA0 else 0x80) \<le> unat b1
                \<and> unat b1 \<le> (if n0 = 0xED then 0x9F else 0xBF)
                \<and> continuation b2
             then map_option
                    ((#) ((n0 - 0xE0) * 4096 + (unat b1 - 0x80) * 64 + (unat b2 - 0x80)))
                    (utf8_decode r)
             else None
         | _ \<Rightarrow> None)
      else if 0xF0 \<le> n0 \<and> n0 \<le> 0xF4 then
        (case bs of
           b1 # b2 # b3 # r \<Rightarrow>
             if (if n0 = 0xF0 then 0x90 else 0x80) \<le> unat b1
                \<and> unat b1 \<le> (if n0 = 0xF4 then 0x8F else 0xBF)
                \<and> continuation b2 \<and> continuation b3
             then map_option
                    ((#) ((n0 - 0xF0) * 262144 + (unat b1 - 0x80) * 4096
                          + (unat b2 - 0x80) * 64 + (unat b3 - 0x80)))
                    (utf8_decode r)
             else None
         | _ \<Rightarrow> None)
      else None)"

text \<open>Text mode reads with universal newlines: \<open>\r\n\<close> and a lone \<open>\r\<close> become
  \<open>\n\<close>.\<close>

fun universal_newlines :: "unicode \<Rightarrow> unicode" where
  "universal_newlines [] = []"
| "universal_newlines [c] = (if c = 13 then [10] else [c])"
| "universal_newlines (c # d # r) =
     (if c = 13 \<and> d = 10 then 10 # universal_newlines r
      else if c = 13 then 10 # universal_newlines (d # r)
      else c # universal_newlines (d # r))"

text \<open>\<open>p.read_text(encoding="utf-8")\<close> and \<open>p.read_bytes()\<close> on the node the path
  names.\<close>

definition read_text :: "node \<Rightarrow> error + unicode" where
  "read_text n =
     (case n of
        Dir es \<Rightarrow> Inl IsADirectoryError
      | File bs \<Rightarrow>
          (case utf8_decode bs of
             None \<Rightarrow> Inl UnicodeDecodeError
           | Some t \<Rightarrow> Inr (universal_newlines t)))"

definition read_bytes :: "node \<Rightarrow> error + byte list" where
  "read_bytes n = (case n of Dir es \<Rightarrow> Inl IsADirectoryError | File bs \<Rightarrow> Inr bs)"

subsection \<open>\<open>base64\<close>\<close>

definition b64_alphabet :: string where
  "b64_alphabet = ''ABCDEFGHIJKLMNOPQRSTUVWXYZabcdefghijklmnopqrstuvwxyz0123456789+/''"

definition b64_char :: "nat \<Rightarrow> char" where
  "b64_char n = b64_alphabet ! (n mod 64)"

fun b64_bytes :: "nat list \<Rightarrow> string" where
  "b64_bytes [] = []"
| "b64_bytes [a] = [b64_char (a div 4), b64_char ((a mod 4) * 16), CHR ''='', CHR ''='']"
| "b64_bytes [a, b] =
     [b64_char (a div 4), b64_char ((a mod 4) * 16 + b div 16),
      b64_char ((b mod 16) * 4), CHR ''='']"
| "b64_bytes (a # b # c # r) =
     [b64_char (a div 4), b64_char ((a mod 4) * 16 + b div 16),
      b64_char ((b mod 16) * 4 + c div 64), b64_char (c mod 64)] @ b64_bytes r"

text \<open>\<open>base64.b64encode(data).decode("ascii")\<close>.\<close>

definition b64encode :: "byte list \<Rightarrow> string" where
  "b64encode data = b64_bytes (map unat data)"

fun index_of :: "'a \<Rightarrow> 'a list \<Rightarrow> nat option" where
  "index_of x [] = None"
| "index_of x (y # ys) = (if x = y then Some 0 else map_option Suc (index_of x ys))"

text \<open>\<open>base64.b64decode\<close>, as the client calls it, on canonical base64 (groups of four
  characters of the alphabet, padding in the last group only). \<open>None\<close> is
  \<open>binascii.Error\<close>. On other strings Python is more lenient (it skips characters
  outside the alphabet); the encoder never produces such strings.\<close>

fun b64_values :: "string \<Rightarrow> nat list option" where
  "b64_values [] = Some []"
| "b64_values (c0 # c1 # c2 # c3 # r) =
     (case (index_of c0 b64_alphabet, index_of c1 b64_alphabet) of
        (Some s0, Some s1) \<Rightarrow>
          if c2 = CHR ''='' \<and> c3 = CHR ''='' \<and> r = [] then Some [s0 * 4 + s1 div 16]
          else
            (case index_of c2 b64_alphabet of
               None \<Rightarrow> None
             | Some s2 \<Rightarrow>
                 if c3 = CHR ''='' \<and> r = []
                 then Some [s0 * 4 + s1 div 16, (s1 mod 16) * 16 + s2 div 4]
                 else
                   (case index_of c3 b64_alphabet of
                      None \<Rightarrow> None
                    | Some s3 \<Rightarrow>
                        map_option
                          (\<lambda>bs. (s0 * 4 + s1 div 16) # ((s1 mod 16) * 16 + s2 div 4)
                                # ((s2 mod 4) * 64 + s3) # bs)
                          (b64_values r)))
      | _ \<Rightarrow> None)"
| "b64_values cs = None"

definition b64decode :: "string \<Rightarrow> byte list option" where
  "b64decode s = map_option (map of_nat) (b64_values s)"

subsection \<open>The helpers of the server\<close>

definition mime_types :: "(string \<times> string) list" where
  "mime_types =
     [(''.txt'', ''text/plain''), (''.md'', ''text/markdown''), (''.html'', ''text/html''),
      (''.htm'', ''text/html''), (''.css'', ''text/css''), (''.csv'', ''text/csv''),
      (''.xml'', ''text/xml''),
      (''.json'', ''application/json''), (''.js'', ''application/javascript''),
      (''.pdf'', ''application/pdf''), (''.zip'', ''application/zip''),
      (''.png'', ''image/png''), (''.jpg'', ''image/jpeg''), (''.jpeg'', ''image/jpeg''),
      (''.gif'', ''image/gif''), (''.svg'', ''image/svg+xml''), (''.ico'', ''image/x-icon''),
      (''.webp'', ''image/webp''), (''.bmp'', ''image/bmp''),
      (''.cs'', ''text/x-csharp''), (''.py'', ''text/x-python''),
      (''.ts'', ''text/typescript''), (''.rs'', ''text/x-rust''), (''.go'', ''text/x-go''),
      (''.java'', ''text/x-java''), (''.cpp'', ''text/x-c++''), (''.cc'', ''text/x-c++''),
      (''.cxx'', ''text/x-c++''), (''.c'', ''text/x-c''), (''.h'', ''text/x-c''),
      (''.sh'', ''text/x-shellscript''), (''.yaml'', ''text/yaml''),
      (''.yml'', ''text/yaml'')]"

definition get_mime_type :: "string \<Rightarrow> string" where
  "get_mime_type file_path =
     (let ext = lower (path_suffix (Path file_path)) in
      case map_of mime_types ext of
        Some m \<Rightarrow> m
      | None \<Rightarrow> ''application/octet-stream'')"

definition is_text_mime_type :: "string \<Rightarrow> bool" where
  "is_text_mime_type mime_type =
     (startswith mime_type ''text/''
      \<or> mime_type = ''application/json''
      \<or> mime_type = ''application/javascript''
      \<or> mime_type = ''image/svg+xml'')"

subsection \<open>\<open>format_file_size\<close>\<close>

text \<open>A Python float is a binary fraction, so its value is a rational number.
  \<open>float(n)\<close> rounds the integer to 53 significant bits, ties to the even neighbour, and
  raises \<open>OverflowError\<close> when the rounded value reaches \<open>2 ^ 1024\<close>. Dividing a float
  that is at least 1024 by 1024 is exact.\<close>

fun bit_length :: "nat \<Rightarrow> nat" where
  "bit_length n = (if n = 0 then 0 else Suc (bit_length (n div 2)))"

definition round53 :: "nat \<Rightarrow> nat" where
  "round53 n =
     (if bit_length n \<le> 53 then n
      else
        (let e = bit_length n - 53;
             q = n div 2 ^ e;
             r = n mod 2 ^ e
         in (if 2 ^ (e - 1) < r \<or> (r = 2 ^ (e - 1) \<and> odd q) then q + 1 else q) * 2 ^ e))"

definition float_of_int :: "int \<Rightarrow> error + rat" where
  "float_of_int i =
     (let m = round53 (nat \<bar>i\<bar>) in
      if 2 ^ 1024 \<le> m then Inl OverflowError
      else Inr (if i < 0 then - of_nat m else of_nat m))"

fun show_nat :: "nat \<Rightarrow> string" where
  "show_nat n =
     (if n < 10 then [''0123456789'' ! n] else show_nat (n div 10) @ [''0123456789'' ! (n mod 10)])"

text \<open>\<open>f"{x:.1f}"\<close>: the value rounded to one decimal, ties to the even digit, all
  digits of the integer part printed.\<close>

definition round_half_even :: "rat \<Rightarrow> int" where
  "round_half_even x =
     (let q = \<lfloor>x\<rfloor>; f = x - of_int q in
      if 1 / 2 < f \<or> (f = 1 / 2 \<and> odd q) then q + 1 else q)"

definition format_1f :: "rat \<Rightarrow> string" where
  "format_1f x =
     (let t = nat (round_half_even (\<bar>x\<bar> * 10)) in
      (if x < 0 then ''-'' else []) @ show_nat (t div 10) @ ''.'' @ show_nat (t mod 10))"

definition suffixes :: "string list" where
  "suffixes = [''B'', ''KB'', ''MB'', ''GB'']"

function size_loop :: "rat \<Rightarrow> nat \<Rightarrow> rat \<times> nat" where
  "size_loop size_float counter =
     (if 1024 \<le> size_float \<and> counter < length suffixes - 1
      then size_loop (size_float / 1024) (counter + 1)
      else (size_float, counter))"
  by pat_completeness auto
termination
  by (relation "measure (\<lambda>(size_float, counter). length suffixes - counter)") auto

definition format_file_size :: "int \<Rightarrow> error + string" where
  "format_file_size size_bytes =
     (case float_of_int size_bytes of
        Inl e \<Rightarrow> Inl e
      | Inr size_float \<Rightarrow>
          (case size_loop size_float 0 of
             (x, counter) \<Rightarrow> Inr (format_1f x @ '' '' @ suffixes ! counter)))"

subsection \<open>The handlers\<close>

text \<open>The body of the loop of \<open>list_resources\<close> for a regular file with the bytes
  \<open>bs\<close>; \<open>rel\<close> is \<open>file_path.relative_to(RESOURCE_FOLDER)\<close> and \<open>st_size\<close> is the
  length of \<open>bs\<close>.\<close>

definition make_resource :: "PosixPath \<Rightarrow> string list \<Rightarrow> byte list \<Rightarrow> error + Resource" where
  "make_resource folder rel bs =
     (let file_path = \<lparr>is_absolute = is_absolute folder,
                       path_parts = path_parts folder @ rel\<rparr>;
          relative_path = \<lparr>is_absolute = False, path_parts = rel\<rparr>;
          uri_path = path_str relative_path;
          u = ''file://resources/'' @ uri_path;
          mime_type = get_mime_type (path_str file_path)
      in case format_file_size (int (length bs)) of
           Inl e \<Rightarrow> Inl e
         | Inr formatted \<Rightarrow>
             Inr \<lparr>uri = u, name = path_name file_path, mimeType = mime_type,
                  description = ''File: '' @ path_str relative_path
                                 @ '' ('' @ formatted @ '')''\<rparr>)"

text \<open>The loop over the paths \<open>rglob\<close> yields below the resource folder \<open>d\<close>: a path
  that is a regular file appends its resource, a directory is skipped. Writing to
  \<open>stderr\<close> is not modelled.\<close>

fun list_loop ::
  "PosixPath \<Rightarrow> node \<Rightarrow> string list list \<Rightarrow> Resource list \<Rightarrow> error + Resource list" where
  "list_loop folder d [] resources = Inr resources"
| "list_loop folder d (rel # rest) resources =
     (case lookup d rel of
        Some (File bs) \<Rightarrow>
          (case make_resource folder rel bs of
             Inl e \<Rightarrow> Inl e
           | Inr r \<Rightarrow> list_loop folder d rest (resources @ [r]))
      | _ \<Rightarrow> list_loop folder d rest resources)"

definition fs_list_resources :: "fs_state \<Rightarrow> error + Resource list" where
  "fs_list_resources st =
     (case RESOURCE_FOLDER st of
        None \<Rightarrow> Inr []
      | Some folder \<Rightarrow>
          (case stat st folder of
             Some (Dir es) \<Rightarrow> list_loop folder (Dir es) (rglob (Dir es)) []
           | _ \<Rightarrow> Inr []))"

text \<open>\<open>read_resource\<close>. \<open>resolve()\<close> raises \<open>ValueError\<close> on a component with a NUL
  character; the \<open>except\<close> clause wraps that error and the access-denied error of the
  guard alike into \<open>Invalid path: ...\<close>. With no resource folder set, \<open>/\<close> on \<open>None\<close>
  is a \<open>TypeError\<close>. \<open>uri_prefix\<close> is the local variable \<open>prefix\<close>.\<close>

definition uri_prefix :: string where
  "uri_prefix = ''file://resources/''"

definition fs_read_resource :: "fs_state \<Rightarrow> string \<Rightarrow> error + unicode read_result" where
  "fs_read_resource st u =
     (if u = [] then Inl (ValueError ''Missing URI parameter'')
      else if \<not> startswith u uri_prefix then
        Inl (ValueError (''Invalid URI format: '' @ u))
      else
        (let relative_path = drop (length uri_prefix) u in
         case RESOURCE_FOLDER st of
           None \<Rightarrow> Inl TypeError
         | Some folder \<Rightarrow>
             (let file_path = joinpath folder relative_path in
              if \<exists>p \<in> set (path_parts file_path). CHR 0x00 \<in> set p then
                Inl (ValueError (''Invalid path: '' @ ''embedded null byte''))
              else
                (let file_path = resolve (cwd st) file_path;
                     resource_folder_resolved = resolve (cwd st) folder
                 in
                 if \<not> startswith (path_str file_path) (path_str resource_folder_resolved) then
                   Inl (ValueError (''Invalid path: ''
                                    @ ''Access denied: path traversal attempt''))
                 else
                   (case stat st file_path of
                      None \<Rightarrow> Inl (ValueError (''Resource not found: '' @ u))
                    | Some n \<Rightarrow>
                        (let mime_type = get_mime_type (path_str file_path) in
                         if is_text_mime_type mime_type then
                           (case read_text n of
                              Inl e \<Rightarrow> Inl e
                            | Inr t \<Rightarrow> Inr (ReadResourceResult [TextContent t]))
                         else
                           (case read_bytes n of
                              Inl e \<Rightarrow> Inl e
                            | Inr data \<Rightarrow>
                                Inr (ReadResourceResult
                                       [BlobContent (b64encode data) mime_type]))))))))"

definition ascii_bytes :: "string \<Rightarrow> byte list" where
  "ascii_bytes s = map of_char s"

subsection \<open>Well-formed filesystems and examples\<close>

text \<open>A file name is not empty, is not \<open>.\<close> or \<open>..\<close>, and holds no \<open>/\<close> and no NUL. In
  a well-formed tree the names of a directory are file names, no two of them equal,
  and the size of a file fits \<open>st_size\<close> (63 bits).\<close>

definition valid_name :: "string \<Rightarrow> bool" where
  "valid_name n =
     (n \<noteq> [] \<and> n \<noteq> ''.'' \<and> n \<noteq> ''..'' \<and> CHR ''/'' \<notin> set n \<and> CHR 0x00 \<notin> set n)"

fun wf_node :: "node \<Rightarrow> bool" where
  "wf_node (File bs) = (length bs < 2 ^ 63)"
| "wf_node (Dir es) =
     (distinct (map fst es) \<and> list_all (\<lambda>e. valid_name (fst e) \<and> wf_node (snd e)) es)"

text \<open>The resource folder \<open>/srv/root\<close> beside a directory \<open>/srv/root-evil\<close>.\<close>

definition sibling_state :: fs_state where
  "sibling_state =
     \<lparr>tree = Dir [(''srv'',
               Dir [(''root'', Dir [(''notes.txt'', File (ascii_bytes ''hello''))]),
                    (''root-evil'',
                     Dir [(''secret.txt'', File (ascii_bytes ''top secret''))])])],
      cwd = [''srv''],
      RESOURCE_FOLDER = Some (Path ''/srv/root'')\<rparr>"

text \<open>A resource folder with a text file with Windows line ends, the start of a PNG
  image, and a \<open>.txt\<close> file that is not UTF-8.\<close>

definition notes_bytes :: "byte list" where
  "notes_bytes = ascii_bytes (''one'' @ [CHR 0x0D, CHR 0x0A] @ ''two'')"

definition sample_state :: fs_state where
  "sample_state =
     \<lparr>tree = Dir [(''data'',
               Dir [(''notes.txt'', File notes_bytes),
                    (''logo.png'', File [0x89, 0x50, 0x4E, 0x47]),
                    (''old'', Dir [(''latin1.txt'', File [0x63, 0x61, 0x66, 0xE9])])])],
      cwd = [],
      RESOURCE_FOLDER = Some (Path ''/data'')\<rparr>"

section \<open>Properties of the resource server\<close>

subsection \<open>Splitting and affixes\<close>

lemma str_split_nonempty: "str_split sep s \<noteq> []"
  by (induction s) (auto split: list.splits)

lemma str_split_no_sep: "sep \<notin> set s \<Longrightarrow> str_split sep s = [s]"
  by (induction s) auto

lemma str_split_append:
  "sep \<notin> set a \<Longrightarrow> str_split sep (a @ sep # rest) = a # str_split sep rest"
  by (induction a) auto

lemma hd_str_split: "hd (str_split sep s) = takeWhile (\<lambda>c. c \<noteq> sep) s"
proof (induction s)
  case Nil
  show ?case by simp
next
  case (Cons c cs)
  then show ?case
    using str_split_nonempty [of sep cs]
    by (cases "str_split sep cs") auto
qed

lemma startswith_decomp: "startswith s p \<Longrightarrow> s = p @ drop (length p) s"
  unfolding startswith_def by (metis append_take_drop_id)

lemma startswith_append: "startswith (p @ r) p"
  by (simp add: startswith_def)

lemma endswith_append: "endswith (r @ p) p"
  by (simp add: endswith_def)

lemma split_user_prefix:
  "str_split CHR ''/'' (''config://user/'' @ r) = ''config:'' # [] # ''user'' # str_split CHR ''/'' r"
proof -
  have "''config://user/'' @ r = ''config:'' @ CHR ''/'' # ([] @ CHR ''/'' # (''user'' @ CHR ''/'' # r))"
    by simp
  then show ?thesis
    by (simp only: str_split_append) (simp add: str_split_append)
qed

lemma split_project_prefix:
  "str_split CHR ''/'' (''config://project/'' @ r) = ''config:'' # [] # ''project'' # str_split CHR ''/'' r"
proof -
  have "''config://project/'' @ r = ''config:'' @ CHR ''/'' # ([] @ CHR ''/'' # (''project'' @ CHR ''/'' # r))"
    by simp
  then show ?thesis
    by (simp only: str_split_append) (simp add: str_split_append)
qed

lemma user_template_read:
  assumes "startswith u ''config://user/''" "endswith u ''/preferences''"
  shows "read_resource u = text_result (json_dumps (get_user_preferences (str_split CHR ''/'' u ! 3)))"
proof -
  obtain r where u: "u = ''config://user/'' @ r"
    using startswith_decomp [OF assms(1)] by blast
  have len: "4 \<le> length (str_split CHR ''/'' u)"
    using str_split_nonempty [of "CHR ''/''" r] unfolding u split_user_prefix
    by (cases "str_split CHR ''/'' r") auto
  have ns: "u \<noteq> ''docs://company/handbook''" "u \<noteq> ''docs://company/coding-standards''"
    "u \<noteq> ''docs://api/endpoints''"
    unfolding u by simp_all
  show ?thesis
    using assms len ns by (simp add: read_resource_def Let_def)
qed

lemma project_template_read:
  assumes "startswith u ''config://project/''" "endswith u ''/settings''"
  shows "read_resource u = text_result (json_dumps (get_project_settings (str_split CHR ''/'' u ! 3)))"
proof -
  obtain r where u: "u = ''config://project/'' @ r"
    using startswith_decomp [OF assms(1)] by blast
  have len: "4 \<le> length (str_split CHR ''/'' u)"
    using str_split_nonempty [of "CHR ''/''" r] unfolding u split_project_prefix
    by (cases "str_split CHR ''/'' r") auto
  have ns: "u \<noteq> ''docs://company/handbook''" "u \<noteq> ''docs://company/coding-standards''"
    "u \<noteq> ''docs://api/endpoints''"
    unfolding u by simp_all
  have nu: "\<not> startswith u ''config://user/''"
    unfolding u by (simp add: startswith_def)
  show ?thesis
    using assms len ns nu by (simp add: read_resource_def Let_def)
qed

lemma fourth_part_user:
  "str_split CHR ''/'' (''config://user/'' @ ident @ ''/preferences'') ! 3
     = takeWhile (\<lambda>c. c \<noteq> CHR ''/'') ident"
proof -
  have "str_split CHR ''/'' (''config://user/'' @ ident @ ''/preferences'') ! 3
          = hd (str_split CHR ''/'' (ident @ ''/preferences''))"
    using str_split_nonempty [of "CHR ''/''" "ident @ ''/preferences''"]
    unfolding split_user_prefix
    by (cases "str_split CHR ''/'' (ident @ ''/preferences'')") (simp_all add: numeral_3_eq_3)
  also have "\<dots> = takeWhile (\<lambda>c. c \<noteq> CHR ''/'') (ident @ ''/preferences'')"
    by (rule hd_str_split)
  also have "\<dots> = takeWhile (\<lambda>c. c \<noteq> CHR ''/'') ident"
    by (induction ident) auto
  finally show ?thesis .
qed

lemma user_uri_read:
  "read_resource (''config://user/'' @ ident @ ''/preferences'')
     = text_result (json_dumps (get_user_preferences (takeWhile (\<lambda>c. c \<noteq> CHR ''/'') ident)))"
proof -
  have s: "startswith (''config://user/'' @ ident @ ''/preferences'') ''config://user/''"
    by (rule startswith_append)
  have e: "endswith (''config://user/'' @ ident @ ''/preferences'') ''/preferences''"
    using endswith_append [of "''config://user/'' @ ident" "''/preferences''"] by simp
  show ?thesis
    using user_template_read [OF s e] by (simp only: fourth_part_user)
qed

lemma lower_ALICE: "lower ''ALICE'' = ''alice''"
  by code_simp

lemma lower_lowercase_examples:
  "lower ''preferences'' = ''preferences''" "lower ''a'' = ''a''" "lower ''xyz'' = ''xyz''"
  "lower ''backend'' = ''backend''" "lower ''alice/x'' = ''alice/x''"
  by code_simp+

lemma takeWhile_no_sep: "sep \<notin> set s \<Longrightarrow> takeWhile (\<lambda>c. c \<noteq> sep) s = s"
  by (induction s) auto

lemma fourth_part_project:
  "str_split CHR ''/'' (''config://project/'' @ ident @ ''/settings'') ! 3
     = takeWhile (\<lambda>c. c \<noteq> CHR ''/'') ident"
proof -
  have "str_split CHR ''/'' (''config://project/'' @ ident @ ''/settings'') ! 3
          = hd (str_split CHR ''/'' (ident @ ''/settings''))"
    using str_split_nonempty [of "CHR ''/''" "ident @ ''/settings''"]
    unfolding split_project_prefix
    by (cases "str_split CHR ''/'' (ident @ ''/settings'')") (simp_all add: numeral_3_eq_3)
  also have "\<dots> = takeWhile (\<lambda>c. c \<noteq> CHR ''/'') (ident @ ''/settings'')"
    by (rule hd_str_split)
  also have "\<dots> = takeWhile (\<lambda>c. c \<noteq> CHR ''/'') ident"
    by (induction ident) auto
  finally show ?thesis .
qed

lemma project_uri_read:
  "read_resource (''config://project/'' @ ident @ ''/settings'')
     = text_result (json_dumps (get_project_settings (takeWhile (\<lambda>c. c \<noteq> CHR ''/'') ident)))"
proof -
  have s: "startswith (''config://project/'' @ ident @ ''/settings'') ''config://project/''"
    by (rule startswith_append)
  have e: "endswith (''config://project/'' @ ident @ ''/settings'') ''/settings''"
    using endswith_append [of "''config://project/'' @ ident" "''/settings''"] by simp
  show ?thesis
    using project_template_read [OF s e] by (simp only: fourth_part_project)
qed

text \<open>
  Claim C3, as the code has it. For every identifier \<open>ident\<close> that contains no
  \<open>/\<close>, reading \<open>config://user/ident/preferences\<close> succeeds with the JSON text of
  \<open>get_user_preferences ident\<close>. The lookup compares the lower-cased identifier: alice
  gives the payload with theme dark, bob the one with theme light, and every other
  identifier the fallback with theme system and timezone UTC.
\<close>

theorem user_preferences_template:
  assumes "CHR ''/'' \<notin> set ident"
  shows "read_resource (''config://user/'' @ ident @ ''/preferences'')
           = text_result (json_dumps (get_user_preferences ident))
       \<and> get_user_preferences ident =
           (if lower ident = ''alice'' then
              JObject [(''theme'', JString ''dark''), (''language'', JString ''en''),
                       (''notifications'', JBool True),
                       (''timezone'', JString ''America/New_York'')]
            else if lower ident = ''bob'' then
              JObject [(''theme'', JString ''light''), (''language'', JString ''es''),
                       (''notifications'', JBool False),
                       (''timezone'', JString ''Europe/Madrid'')]
            else
              JObject [(''theme'', JString ''system''), (''language'', JString ''en''),
                       (''notifications'', JBool True), (''timezone'', JString ''UTC'')])"
proof
  show "read_resource (''config://user/'' @ ident @ ''/preferences'')
           = text_result (json_dumps (get_user_preferences ident))"
    using user_uri_read [of ident] by (simp only: takeWhile_no_sep [OF assms])
next
  show "get_user_preferences ident =
           (if lower ident = ''alice'' then
              JObject [(''theme'', JString ''dark''), (''language'', JString ''en''),
                       (''notifications'', JBool True),
                       (''timezone'', JString ''America/New_York'')]
            else if lower ident = ''bob'' then
              JObject [(''theme'', JString ''light''), (''language'', JString ''es''),
                       (''notifications'', JBool False),
                       (''timezone'', JString ''Europe/Madrid'')]
            else
              JObject [(''theme'', JString ''system''), (''language'', JString ''en''),
                       (''notifications'', JBool True), (''timezone'', JString ''UTC'')])"
    by (simp add: get_user_preferences_def Let_def)
qed

theorem user_preferences_template_witness:
  "CHR ''/'' \<notin> set ''ALICE''
   \<and> read_resource ''config://user/ALICE/preferences''
       = text_result (json_dumps (JObject [(''theme'', JString ''dark''), (''language'', JString ''en''),
                       (''notifications'', JBool True),
                       (''timezone'', JString ''America/New_York'')]))"
proof -
  have h: "CHR ''/'' \<notin> set ''ALICE''" by simp
  show ?thesis
    using h user_preferences_template [OF h] by (simp add: lower_ALICE)
qed

text \<open>
  The claim as written ranges over every identifier string. The identifier
  \<open>alice/x\<close> is not alice or bob after lower-casing, yet the read returns the payload
  of alice and not the fallback: the handler looks up the fourth \<open>/\<close>-part of the URI.
\<close>

theorem user_preferences_slash_counterexample:
  "lower ''alice/x'' \<noteq> ''alice'' \<and> lower ''alice/x'' \<noteq> ''bob''
   \<and> read_resource (''config://user/'' @ ''alice/x'' @ ''/preferences'')
       = text_result (json_dumps (JObject [(''theme'', JString ''dark''), (''language'', JString ''en''),
                 (''notifications'', JBool True),
                 (''timezone'', JString ''America/New_York'')]))
   \<and> read_resource (''config://user/'' @ ''alice/x'' @ ''/preferences'')
       \<noteq> text_result (json_dumps (JObject [(''theme'', JString ''system''), (''language'', JString ''en''),
                      (''notifications'', JBool True), (''timezone'', JString ''UTC'')]))"
  using user_uri_read [of "''alice/x''"]
  by (simp add: lower_def lower_char_def get_user_preferences_def Let_def text_result_def
      json_dumps_def json_block_def json_string_def json_escape_char_def json_indent_def)

text \<open>
  Claim C4, as the code has it. Reading \<open>config://project/backend/settings\<close> gives the
  JSON text of the backend payload, which holds database: PostgreSQL. For every project
  id that is not frontend, backend or mobile after lower-casing,
  \<open>get_project_settings\<close> returns exactly two fields: the placeholder framework: Unknown
  and the explanatory note naming the id; when the id holds no \<open>/\<close>, this is the payload
  the read of \<open>config://project/id/settings\<close> serialises.
\<close>

theorem project_settings_template:
  "read_resource ''config://project/backend/settings''
     = text_result (json_dumps
         (JObject [(''framework'', JString ''ASP.NET Core''),
                   (''database'', JString ''PostgreSQL''), (''cache'', JString ''Redis''),
                   (''testRunner'', JString ''xUnit''), (''deployTarget'', JString ''Azure'')]))
   \<and> (\<forall>project_id.
         lower project_id \<noteq> ''frontend'' \<and> lower project_id \<noteq> ''backend''
         \<and> lower project_id \<noteq> ''mobile'' \<longrightarrow>
           get_project_settings project_id =
             JObject [(''framework'', JString ''Unknown''),
                      (''note'', JString (''No configuration found for project ''
                                          @ [CHR 0x27] @ project_id @ [CHR 0x27]))]
           \<and> (CHR ''/'' \<notin> set project_id \<longrightarrow>
                read_resource (''config://project/'' @ project_id @ ''/settings'')
                  = text_result (json_dumps (get_project_settings project_id))))"
proof (intro conjI allI impI)
  show "read_resource ''config://project/backend/settings''
     = text_result (json_dumps
         (JObject [(''framework'', JString ''ASP.NET Core''),
                   (''database'', JString ''PostgreSQL''), (''cache'', JString ''Redis''),
                   (''testRunner'', JString ''xUnit''), (''deployTarget'', JString ''Azure'')]))"
    using project_uri_read [of "''backend''"]
    by (simp add: get_project_settings_def Let_def lower_lowercase_examples)
next
  fix project_id
  assume "lower project_id \<noteq> ''frontend'' \<and> lower project_id \<noteq> ''backend''
         \<and> lower project_id \<noteq> ''mobile''"
  then show "get_project_settings project_id =
             JObject [(''framework'', JString ''Unknown''),
                      (''note'', JString (''No configuration found for project ''
                                          @ [CHR 0x27] @ project_id @ [CHR 0x27]))]"
    by (simp add: get_project_settings_def Let_def)
next
  fix project_id
  assume "CHR ''/'' \<notin> set project_id"
  then have tw: "takeWhile (\<lambda>c. c \<noteq> CHR ''/'') project_id = project_id"
    by (rule takeWhile_no_sep)
  show "read_resource (''config://project/'' @ project_id @ ''/settings'')
                  = text_result (json_dumps (get_project_settings project_id))"
    using project_uri_read [of project_id] by (simp only: tw)
qed

theorem project_settings_template_witness:
  "lower ''xyz'' \<noteq> ''frontend'' \<and> lower ''xyz'' \<noteq> ''backend'' \<and> lower ''xyz'' \<noteq> ''mobile''
   \<and> CHR ''/'' \<notin> set ''xyz''
   \<and> get_project_settings ''xyz'' =
       JObject [(''framework'', JString ''Unknown''),
                (''note'', JString (''No configuration found for project ''
                                   @ [CHR 0x27] @ ''xyz'' @ [CHR 0x27]))]
   \<and> read_resource ''config://project/xyz/settings''
       = text_result (json_dumps
           (JObject [(''framework'', JString ''Unknown''),
                (''note'', JString (''No configuration found for project ''
                                   @ [CHR 0x27] @ ''xyz'' @ [CHR 0x27]))]))"
proof -
  have h: "lower ''xyz'' \<noteq> ''frontend'' \<and> lower ''xyz'' \<noteq> ''backend'' \<and> lower ''xyz'' \<noteq> ''mobile''"
    by (simp add: lower_lowercase_examples)
  have n: "CHR ''/'' \<notin> set ''xyz''" by simp
  from project_settings_template have
    "get_project_settings ''xyz'' =
             JObject [(''framework'', JString ''Unknown''),
                      (''note'', JString (''No configuration found for project ''
                                          @ [CHR 0x27] @ ''xyz'' @ [CHR 0x27]))]
           \<and> (CHR ''/'' \<notin> set ''xyz'' \<longrightarrow>
                read_resource (''config://project/'' @ ''xyz'' @ ''/settings'')
                  = text_result (json_dumps (get_project_settings ''xyz'')))"
    using h by blast
  then show ?thesis using h n by simp
qed

text \<open>
  The claim as written ranges over every project id. The id \<open>backend/x\<close> is not
  frontend, backend or mobile after lower-casing, yet the read of
  \<open>config://project/backend/x/settings\<close> returns the backend payload, which has no note:
  the handler looks up the fourth \<open>/\<close>-part of the URI.
\<close>

theorem project_settings_slash_counterexample:
  "lower ''backend/x'' \<noteq> ''frontend'' \<and> lower ''backend/x'' \<noteq> ''backend''
   \<and> lower ''backend/x'' \<noteq> ''mobile''
   \<and> read_resource (''config://project/'' @ ''backend/x'' @ ''/settings'')
       = text_result (json_dumps
           (JObject [(''framework'', JString ''ASP.NET Core''),
                     (''database'', JString ''PostgreSQL''), (''cache'', JString ''Redis''),
                     (''testRunner'', JString ''xUnit''),
                     (''deployTarget'', JString ''Azure'')]))
   \<and> read_resource (''config://project/'' @ ''backend/x'' @ ''/settings'')
       \<noteq> text_result (json_dumps
           (JObject [(''framework'', JString ''Unknown''),
                     (''note'', JString (''No configuration found for project ''
                                         @ [CHR 0x27] @ ''backend/x'' @ [CHR 0x27]))]))"
  using project_uri_read [of "''backend/x''"]
  by (simp add: lower_def lower_char_def get_project_settings_def Let_def text_result_def
      json_dumps_def json_block_def json_string_def json_escape_char_def json_indent_def)

text \<open>
  Claim C5. A URI that is none of the three static URIs and matches neither template
  shape (prefix, suffix and at least four \<open>/\<close>-parts) makes the read fail with the
  \<open>ValueError\<close> whose message is \<open>Resource not found:\<close> followed by the URI. The
  result is the error alone: there is no content beside it, and the handler has no
  state to change.
\<close>

theorem read_not_found:
  assumes "u \<noteq> ''docs://company/handbook''"
      and "u \<noteq> ''docs://company/coding-standards''"
      and "u \<noteq> ''docs://api/endpoints''"
      and "\<not> (startswith u ''config://user/'' \<and> endswith u ''/preferences''
               \<and> 4 \<le> length (str_split CHR ''/'' u))"
      and "\<not> (startswith u ''config://project/'' \<and> endswith u ''/settings''
               \<and> 4 \<le> length (str_split CHR ''/'' u))"
  shows "read_resource u = Inl (ValueError (''Resource not found: '' @ u))"
  using assms by (auto simp add: read_resource_def Let_def)

theorem read_not_found_witness:
  "read_resource ''docs://company/unknown'' = Inl (ValueError ''Resource not found: docs://company/unknown'')"
  using read_not_found [of "''docs://company/unknown''"]
  by (simp add: startswith_def)

text \<open>
  Claim C10. A URI with the prefix and the suffix of a template is served from its
  fourth \<open>/\<close>-part, whatever lies between. So \<open>config://user/preferences\<close>, where
  prefix and suffix share a separator, is read with the identifier \<open>preferences\<close> and
  gives the fallback payload, and \<open>config://user/a/b/preferences\<close> is read with the
  identifier \<open>a\<close> alone. Neither is a not-found error.
\<close>

theorem template_shape_edge:
  "(startswith u ''config://user/'' \<and> endswith u ''/preferences'' \<longrightarrow>
      read_resource u
        = text_result (json_dumps (get_user_preferences (str_split CHR ''/'' u ! 3))))
   \<and> (startswith u ''config://project/'' \<and> endswith u ''/settings'' \<longrightarrow>
      read_resource u
        = text_result (json_dumps (get_project_settings (str_split CHR ''/'' u ! 3))))
   \<and> str_split CHR ''/'' ''config://user/preferences'' ! 3 = ''preferences''
   \<and> read_resource ''config://user/preferences''
       = text_result (json_dumps
           (JObject [(''theme'', JString ''system''), (''language'', JString ''en''),
                     (''notifications'', JBool True), (''timezone'', JString ''UTC'')]))
   \<and> str_split CHR ''/'' ''config://user/a/b/preferences'' ! 3 = ''a''
   \<and> read_resource ''config://user/a/b/preferences''
       = text_result (json_dumps (get_user_preferences ''a''))"
proof -
  have p3: "str_split CHR ''/'' ''config://user/preferences'' ! 3 = ''preferences''"
    by simp
  have a3: "str_split CHR ''/'' ''config://user/a/b/preferences'' ! 3 = ''a''"
    by simp
  have sp: "startswith ''config://user/preferences'' ''config://user/''"
           "endswith ''config://user/preferences'' ''/preferences''"
           "startswith ''config://user/a/b/preferences'' ''config://user/''"
           "endswith ''config://user/a/b/preferences'' ''/preferences''"
    by (simp_all add: startswith_def endswith_def)
  have r1: "read_resource ''config://user/preferences''
       = text_result (json_dumps
           (JObject [(''theme'', JString ''system''), (''language'', JString ''en''),
                     (''notifications'', JBool True), (''timezone'', JString ''UTC'')]))"
    using user_template_read [OF sp(1) sp(2)] unfolding p3
    by (simp add: get_user_preferences_def Let_def lower_lowercase_examples)
  have r2: "read_resource ''config://user/a/b/preferences''
       = text_result (json_dumps (get_user_preferences ''a''))"
    using user_template_read [OF sp(3) sp(4)] unfolding a3 .
  show ?thesis
    using user_template_read [of u] project_template_read [of u] p3 a3 r1 r2 by blast
qed

theorem template_shape_edge_witness:
  "startswith ''config://project/x/y/settings'' ''config://project/''
   \<and> endswith ''config://project/x/y/settings'' ''/settings''
   \<and> read_resource ''config://project/x/y/settings''
        = text_result (json_dumps (get_project_settings ''x''))"
proof -
  have s: "startswith ''config://project/x/y/settings'' ''config://project/''
     \<and> endswith ''config://project/x/y/settings'' ''/settings''"
    by (simp add: startswith_def endswith_def)
  have p: "str_split CHR ''/'' ''config://project/x/y/settings'' ! 3 = ''x''"
    by simp
  show ?thesis
    using s template_shape_edge [of "''config://project/x/y/settings''"] p by simp
qed

section \<open>Properties of \<open>format_file_size\<close>\<close>

declare bit_length.simps [simp del]

lemma bit_length_0 [simp]: "bit_length 0 = 0"
  by (simp add: bit_length.simps)

lemma bit_length_pos: "0 < n \<Longrightarrow> bit_length n = Suc (bit_length (n div 2))"
  by (subst bit_length.simps) simp

lemma bit_length_upper: "n < 2 ^ bit_length n"
proof (induction n rule: bit_length.induct)
  case (1 n)
  show ?case
  proof (cases "n = 0")
    case True
    then show ?thesis by simp
  next
    case False
    then have "n div 2 < 2 ^ bit_length (n div 2)" using 1 by simp
    then have "n < 2 * 2 ^ bit_length (n div 2)" by linarith
    then show ?thesis using False by (simp add: bit_length_pos)
  qed
qed

lemma bit_length_lower: "0 < n \<Longrightarrow> 2 ^ (bit_length n - 1) \<le> n"
proof (induction n rule: bit_length.induct)
  case (1 n)
  show ?case
  proof (cases "n div 2 = 0")
    case True
    then have "n = 1" using 1(2) by linarith
    then show ?thesis by (simp add: bit_length_pos)
  next
    case False
    then have ih: "2 ^ (bit_length (n div 2) - 1) \<le> n div 2" using 1 by simp
    have pos: "0 < bit_length (n div 2)" using False by (simp add: bit_length_pos)
    have "2 ^ (bit_length n - 1) = (2::nat) ^ bit_length (n div 2)"
      using 1(2) by (simp add: bit_length_pos)
    also have "\<dots> = 2 * 2 ^ (bit_length (n div 2) - 1)"
      using pos by (cases "bit_length (n div 2)") simp_all
    also have "\<dots> \<le> 2 * (n div 2)" using ih by simp
    also have "\<dots> \<le> n" by simp
    finally show ?thesis .
  qed
qed

lemma bit_length_le: "n < 2 ^ k \<Longrightarrow> bit_length n \<le> k"
proof (rule ccontr)
  assume lt: "n < 2 ^ k" and "\<not> bit_length n \<le> k"
  then have k: "k \<le> bit_length n - 1" and pos: "0 < n"
    by (auto intro: Nat.gr0I)
  have "(2::nat) ^ k \<le> 2 ^ (bit_length n - 1)" using k by (simp add: power_increasing)
  also have "\<dots> \<le> n" using pos by (rule bit_length_lower)
  finally show False using lt by simp
qed

lemma bit_length_power: "bit_length (2 ^ k) = Suc k"
proof -
  have "bit_length (2 ^ k) \<le> Suc k" by (rule bit_length_le) simp
  moreover have "\<not> bit_length (2 ^ k) \<le> k"
  proof
    assume "bit_length (2 ^ k) \<le> k"
    then have "(2::nat) ^ bit_length (2 ^ k) \<le> 2 ^ k" by (simp add: power_increasing)
    then show False using bit_length_upper [of "2 ^ k"] by simp
  qed
  ultimately show ?thesis by simp
qed

lemma round53_small: "n < 2 ^ 53 \<Longrightarrow> round53 n = n"
  using bit_length_le [of n 53] by (simp add: round53_def)

lemma float_of_int_small:
  assumes "\<bar>i\<bar> < 2 ^ 53"
  shows "float_of_int i = Inr (of_int i)"
proof -
  have n: "nat \<bar>i\<bar> < 2 ^ 53" using assms by (simp add: nat_less_iff)
  have lt: "(2::nat) ^ 53 < 2 ^ 1024" by (simp add: power_strict_increasing)
  have "\<not> (2::nat) ^ 1024 \<le> nat \<bar>i\<bar>" using n lt by linarith
  then show ?thesis
    unfolding float_of_int_def round53_small [OF n] Let_def
    by (cases "i < 0") (simp_all add: of_nat_nat)
qed

declare size_loop.simps [simp del]

lemma size_loop_stop:
  "\<not> (1024 \<le> x \<and> c < 3) \<Longrightarrow> size_loop x c = (x, c)"
  by (subst size_loop.simps) (auto simp add: suffixes_def numeral_3_eq_3)

lemma size_loop_step:
  "1024 \<le> x \<Longrightarrow> c < 3 \<Longrightarrow> size_loop x c = size_loop (x / 1024) (Suc c)"
  by (subst size_loop.simps) (auto simp add: suffixes_def numeral_3_eq_3)

lemma size_loop_closed:
  "size_loop x 0 =
     (if x < 1024 then (x, 0)
      else if x < 1024 ^ 2 then (x / 1024, 1)
      else if x < 1024 ^ 3 then (x / 1024 ^ 2, 2)
      else (x / 1024 ^ 3, 3))"
proof -
  consider "x < 1024" | "1024 \<le> x" "x < 1024 ^ 2" | "1024 ^ 2 \<le> x" "x < 1024 ^ 3"
    | "1024 ^ 3 \<le> x"
    by linarith
  then show ?thesis
  proof cases
    case 1
    then show ?thesis by (simp add: size_loop_stop)
  next
    case 2
    then have "size_loop x 0 = size_loop (x / 1024) (Suc 0)"
      by (simp add: size_loop_step)
    also have "\<dots> = (x / 1024, Suc 0)"
      using 2 by (intro size_loop_stop) simp
    finally show ?thesis using 2 by simp
  next
    case 3
    then have a: "1024 \<le> x" by simp
    have "size_loop x 0 = size_loop (x / 1024) (Suc 0)"
      using a by (simp add: size_loop_step)
    also have "\<dots> = size_loop (x / 1024 / 1024) (Suc (Suc 0))"
      using 3 by (intro size_loop_step) simp_all
    also have "\<dots> = (x / 1024 / 1024, Suc (Suc 0))"
      using 3 by (intro size_loop_stop) simp
    finally show ?thesis using 3 a by (simp add: numeral_2_eq_2)
  next
    case 4
    then have a: "1024 \<le> x" "1024 ^ 2 \<le> x" by simp_all
    have "size_loop x 0 = size_loop (x / 1024) (Suc 0)"
      using a by (simp add: size_loop_step)
    also have "\<dots> = size_loop (x / 1024 / 1024) (Suc (Suc 0))"
      using a by (intro size_loop_step) simp_all
    also have "\<dots> = size_loop (x / 1024 / 1024 / 1024) (Suc (Suc (Suc 0)))"
      using 4 by (intro size_loop_step) simp_all
    also have "\<dots> = (x / 1024 / 1024 / 1024, Suc (Suc (Suc 0)))"
      by (intro size_loop_stop) simp
    finally show ?thesis using 4 a by (simp add: numeral_3_eq_3)
  qed
qed

lemma format_file_size_small:
  "\<bar>i\<bar> < 2 ^ 53 \<Longrightarrow>
   format_file_size i =
     (case size_loop (of_int i) 0 of (x, c) \<Rightarrow> Inr (format_1f x @ '' '' @ suffixes ! c))"
  by (simp add: format_file_size_def float_of_int_small)

lemma format_file_size_0: "format_file_size 0 = Inr ''0.0 B''"
  by (simp add: format_file_size_small size_loop_closed format_1f_def round_half_even_def
      suffixes_def Let_def)

lemma format_file_size_1536: "format_file_size 1536 = Inr ''1.5 KB''"
  by (simp add: format_file_size_small size_loop_closed format_1f_def round_half_even_def
      suffixes_def Let_def)

lemma format_file_size_1048576: "format_file_size 1048576 = Inr ''1.0 MB''"
  by (simp add: format_file_size_small size_loop_closed format_1f_def round_half_even_def
      suffixes_def Let_def)

lemma round_top_binade:
  fixes A :: nat
  assumes N: "N < 2 ^ 54 * A - A" and A: "0 < A"
  shows "(if A < N mod (2 * A) \<or> (N mod (2 * A) = A \<and> odd (N div (2 * A)))
          then N div (2 * A) + 1 else N div (2 * A)) * (2 * A) < 2 ^ 54 * A"
proof -
  define q where "q = N div (2 * A)"
  define r where "r = N mod (2 * A)"
  have N_eq: "N = q * (2 * A) + r" by (simp add: q_def r_def div_mult_mod_eq)
  have top: "(2::nat) ^ 54 * A = 2 ^ 53 * (2 * A)" by simp
  have "q * (2 * A) \<le> N" using N_eq by simp
  also have "N < 2 ^ 53 * (2 * A)" using N top by linarith
  finally have "q < 2 ^ 53" using A by (simp only: mult_less_cancel2)
  then consider "q + 1 < 2 ^ 53" | "q = 2 ^ 53 - 1" by linarith
  then have "(if A < r \<or> (r = A \<and> odd q) then q + 1 else q) * (2 * A) < 2 ^ 53 * (2 * A)"
  proof cases
    case 1
    then have "(if A < r \<or> (r = A \<and> odd q) then q + 1 else q) < 2 ^ 53" by simp
    then show ?thesis using A by (simp only: mult_less_cancel2) simp
  next
    case 2
    have "q * (2 * A) + A = 2 ^ 54 * A - A"
      unfolding 2 top using A by (simp add: algebra_simps)
    then have "r < A" using N N_eq by linarith
    then have "(if A < r \<or> (r = A \<and> odd q) then q + 1 else q) = q" by simp
    then show ?thesis using 2 A by simp
  qed
  then show ?thesis unfolding q_def r_def top .
qed

lemma round53_in_range:
  assumes "n < 2 ^ 1024 - 2 ^ 970"
  shows "round53 n < 2 ^ 1024"
proof (cases "bit_length n \<le> 53")
  case True
  have "n < 2 ^ 1024" using assms by simp
  then show ?thesis using True by (simp add: round53_def)
next
  case False
  define e where "e = bit_length n - 53"
  have bl: "bit_length n = 53 + e" using False by (simp add: e_def)
  have e_pos: "0 < e" using False by (simp add: e_def)
  have "n < 2 ^ 1024" using assms by simp
  then have "bit_length n \<le> 1024" by (rule bit_length_le)
  then have e_le: "e \<le> 971" using bl by simp
  have r53: "round53 n =
      (if 2 ^ (e - 1) < n mod 2 ^ e \<or> (n mod 2 ^ e = 2 ^ (e - 1) \<and> odd (n div 2 ^ e))
       then n div 2 ^ e + 1 else n div 2 ^ e) * 2 ^ e"
    using False by (simp add: round53_def e_def Let_def)
  show ?thesis
  proof (cases "e = 971")
    case True
    have p: "(2::nat) ^ 1024 = 2 ^ 54 * 2 ^ 970" "(2::nat) ^ 971 = 2 * 2 ^ 970"
      by (simp_all add: power_add [symmetric])
    have "n < 2 ^ 54 * 2 ^ 970 - (2::nat) ^ 970" using assms p by simp
    from round_top_binade [OF this] show ?thesis
      unfolding r53 True p by simp
  next
    case False
    then have e970: "e \<le> 970" using e_le by simp
    have "n < 2 ^ (53 + e)" using bit_length_upper [of n] bl by simp
    then have "n < 2 ^ 53 * 2 ^ e" by (simp add: power_add)
    then have q: "n div 2 ^ e < 2 ^ 53"
      by (simp add: less_mult_imp_div_less)
    have "round53 n \<le> (n div 2 ^ e + 1) * 2 ^ e"
      unfolding r53 by simp
    also have "\<dots> \<le> 2 ^ 53 * 2 ^ e" using q by (simp only: mult_le_cancel2) simp
    also have "\<dots> = 2 ^ (53 + e)" by (simp add: power_add)
    also have "\<dots> \<le> 2 ^ 1023" using e970 by (intro power_increasing) simp_all
    also have "\<dots> < (2::nat) ^ 1024" by (simp add: power_strict_increasing)
    finally show ?thesis .
  qed
qed

lemma float_of_int_defined:
  assumes "0 \<le> i" "i < 2 ^ 1024 - 2 ^ 970"
  shows "float_of_int i = Inr (of_nat (round53 (nat i)))"
proof -
  have "nat i < nat (2 ^ 1024 - 2 ^ 970)" using assms by (simp add: nat_less_iff)
  also have "nat (2 ^ 1024 - 2 ^ 970) = (2::nat) ^ 1024 - 2 ^ 970"
    by (simp add: nat_diff_distrib nat_power_eq)
  finally have "round53 (nat i) < 2 ^ 1024" by (rule round53_in_range)
  then show ?thesis using assms by (simp add: float_of_int_def Let_def)
qed

lemma round53_power:
  assumes "53 \<le> k"
  shows "round53 (2 ^ k) = 2 ^ k"
proof -
  define e where "e = k - 52"
  have k: "k = 52 + e" and e: "0 < e" using assms by (simp_all add: e_def)
  have bl: "bit_length (2 ^ k) - 53 = e" by (simp add: bit_length_power k)
  have big: "\<not> bit_length (2 ^ k) \<le> 53" using e by (simp add: bit_length_power k)
  have q: "(2::nat) ^ k div 2 ^ e = 2 ^ 52" by (simp add: k power_add)
  have r: "(2::nat) ^ k mod 2 ^ e = 0" by (simp add: k power_add)
  have "round53 (2 ^ k) = 2 ^ 52 * 2 ^ e"
    unfolding round53_def Let_def bl q r using big e by simp
  then show ?thesis by (simp add: k power_add)
qed

lemma float_of_int_power_overflow:
  assumes "1024 \<le> k"
  shows "float_of_int (2 ^ k) = Inl OverflowError"
proof -
  have n: "nat \<bar>2 ^ k :: int\<bar> = 2 ^ k" by (simp add: nat_power_eq)
  have "round53 (2 ^ k) = 2 ^ k" using assms by (intro round53_power) simp
  moreover have "(2::nat) ^ 1024 \<le> 2 ^ k" using assms by (intro power_increasing) simp_all
  ultimately show ?thesis unfolding float_of_int_def n Let_def by simp
qed

lemma float_of_int_overflow: "float_of_int (2 ^ 1024) = Inl OverflowError"
  by (rule float_of_int_power_overflow) simp

lemma show_nat_digit: "n < 10 \<Longrightarrow> show_nat n = [''0123456789'' ! n]"
  by (subst show_nat.simps) simp

lemma format_1f_nonneg:
  assumes "0 \<le> x"
  shows "format_1f x =
     (let t = nat (round_half_even (x * 10)) in
      show_nat (t div 10) @ ''.'' @ [''0123456789'' ! (t mod 10)])"
proof -
  have "\<not> x < 0" "\<bar>x\<bar> = x" using assms by simp_all
  then show ?thesis
    unfolding format_1f_def Let_def by (simp add: show_nat_digit)
qed

lemma format_file_size_general:
  assumes "0 \<le> n" "n < 2 ^ 1024 - 2 ^ 970"
  shows "format_file_size n =
     (let y = rat_of_nat (round53 (nat n));
          k = (if y < 1024 then 0 else if y < 1024 ^ 2 then 1
               else if y < 1024 ^ 3 then 2 else 3);
          t = nat (round_half_even (y / 1024 ^ k * 10))
      in Inr (show_nat (t div 10) @ ''.'' @ [''0123456789'' ! (t mod 10)]
              @ '' '' @ [''B'', ''KB'', ''MB'', ''GB''] ! k))"
proof -
  define y where "y = rat_of_nat (round53 (nat n))"
  have y0: "0 \<le> y" by (simp add: y_def)
  have fl: "float_of_int n = Inr y"
    unfolding y_def using assms by (rule float_of_int_defined)
  have nn: "0 \<le> y / 1024" "0 \<le> y / 1024 ^ 2" "0 \<le> y / 1024 ^ 3"
    using y0 by simp_all
  show ?thesis
    unfolding format_file_size_def fl y_def [symmetric]
    by (simp add: size_loop_closed format_1f_nonneg y0 nn suffixes_def Let_def
        del: show_nat.simps)
qed

text \<open>
  Claim C8. For every size from 0 up to, but not including, \<open>2 ^ 1024 - 2 ^ 970\<close>, which
  covers every file size (\<open>st_size\<close> is below \<open>2 ^ 63\<close>), \<open>format_file_size\<close> returns
  the float value \<open>y\<close> of the size, divided by 1024 once for each step in which it is
  still at least 1024 and a larger suffix remains (at most three times), printed with
  one decimal digit (rounded to nearest, ties to even), a space and the suffix B, KB,
  MB or GB of the number of steps. Below \<open>2 ^ 53\<close> the float value is the size itself.
  In particular 0 gives \<open>0.0 B\<close>, 1536 gives \<open>1.5 KB\<close> and 1048576 gives \<open>1.0 MB\<close>.
\<close>

theorem format_file_size_spec:
  "(0 \<le> n \<and> n < 2 ^ 1024 - 2 ^ 970 \<longrightarrow>
      format_file_size n =
        (let y = rat_of_nat (round53 (nat n));
             k = (if y < 1024 then 0 else if y < 1024 ^ 2 then 1
                  else if y < 1024 ^ 3 then 2 else 3);
             t = nat (round_half_even (y / 1024 ^ k * 10))
         in Inr (show_nat (t div 10) @ ''.'' @ [''0123456789'' ! (t mod 10)]
                 @ '' '' @ [''B'', ''KB'', ''MB'', ''GB''] ! k)))
   \<and> (0 \<le> n \<and> n < 2 ^ 53 \<longrightarrow> round53 (nat n) = nat n)
   \<and> format_file_size 0 = Inr ''0.0 B''
   \<and> format_file_size 1536 = Inr ''1.5 KB''
   \<and> format_file_size 1048576 = Inr ''1.0 MB''"
proof (intro conjI impI)
  assume "0 \<le> n \<and> n < 2 ^ 1024 - 2 ^ 970"
  then show "format_file_size n =
        (let y = rat_of_nat (round53 (nat n));
             k = (if y < 1024 then 0 else if y < 1024 ^ 2 then 1
                  else if y < 1024 ^ 3 then 2 else 3);
             t = nat (round_half_even (y / 1024 ^ k * 10))
         in Inr (show_nat (t div 10) @ ''.'' @ [''0123456789'' ! (t mod 10)]
                 @ '' '' @ [''B'', ''KB'', ''MB'', ''GB''] ! k))"
    by (intro format_file_size_general) simp_all
next
  assume "0 \<le> n \<and> n < 2 ^ 53"
  then have "nat n < 2 ^ 53" by (simp add: nat_less_iff)
  then show "round53 (nat n) = nat n" by (rule round53_small)
next
  show "format_file_size 0 = Inr ''0.0 B''" by (rule format_file_size_0)
  show "format_file_size 1536 = Inr ''1.5 KB''" by (rule format_file_size_1536)
  show "format_file_size 1048576 = Inr ''1.0 MB''" by (rule format_file_size_1048576)
qed

text \<open>
  The bound of the range is where \<open>float(size)\<close> stops converting: at \<open>2 ^ 1024\<close> it
  raises \<open>OverflowError\<close>. No file size comes near it.
\<close>

lemma format_file_size_overflow:
  "(0::int) \<le> 2 ^ 1024 \<and> format_file_size (2 ^ 1024) = Inl OverflowError"
  by (simp add: format_file_size_def float_of_int_overflow del: power_numeral)

lemma round_half_even_12_5: "round_half_even (25 / 2) = 12"
proof -
  have "\<lfloor>(25::rat) / 2\<rfloor> = 12" by (rule floor_unique) simp_all
  then show ?thesis by (simp add: round_half_even_def Let_def)
qed

theorem format_file_size_spec_witness:
  "(0::int) \<le> 1280 \<and> (1280::int) < 2 ^ 53 \<and> round53 (nat 1280) = nat 1280
   \<and> format_file_size 1280 = Inr ''1.2 KB''"
proof -
  have h: "(0::int) \<le> 1280 \<and> (1280::int) < 2 ^ 1024 - 2 ^ 970" by simp
  have s: "(0::int) \<le> 1280 \<and> (1280::int) < 2 ^ 53" by simp
  have r: "round53 (nat 1280) = nat 1280"
    using format_file_size_spec [of 1280] s by blast
  have "format_file_size 1280 =
        (let y = rat_of_nat (round53 (nat 1280));
             k = (if y < 1024 then 0 else if y < 1024 ^ 2 then 1
                  else if y < 1024 ^ 3 then 2 else 3);
             t = nat (round_half_even (y / 1024 ^ k * 10))
         in Inr (show_nat (t div 10) @ ''.'' @ [''0123456789'' ! (t mod 10)]
                 @ '' '' @ [''B'', ''KB'', ''MB'', ''GB''] ! k))"
    using format_file_size_spec [of 1280] h by blast
  then have "format_file_size 1280 = Inr ''1.2 KB''"
    unfolding r by (simp add: Let_def round_half_even_12_5)
  then show ?thesis using s r by simp
qed

section \<open>Properties of the filesystem server: reading\<close>

lemma b64_alphabet_distinct: "distinct b64_alphabet"
  by code_simp

lemma b64_alphabet_length: "length b64_alphabet = 64"
  by (simp add: b64_alphabet_def)

lemma index_of_nth: "distinct xs \<Longrightarrow> n < length xs \<Longrightarrow> index_of (xs ! n) xs = Some n"
proof (induction xs arbitrary: n)
  case Nil
  then show ?case by simp
next
  case (Cons x xs)
  show ?case
  proof (cases n)
    case 0
    then show ?thesis by simp
  next
    case (Suc m)
    then have "xs ! m \<in> set xs" using Cons.prems by simp
    then have "xs ! m \<noteq> x" using Cons.prems by auto
    then show ?thesis using Suc Cons by simp
  qed
qed

lemma index_of_b64_char: "n < 64 \<Longrightarrow> index_of (b64_char n) b64_alphabet = Some n"
  unfolding b64_char_def
  using index_of_nth [OF b64_alphabet_distinct, of n] by (simp add: b64_alphabet_length)

lemma pad_not_in_alphabet: "CHR ''='' \<notin> set b64_alphabet"
  by code_simp

lemma b64_char_not_pad: "n < 64 \<Longrightarrow> b64_char n \<noteq> CHR ''=''"
proof -
  assume "n < 64"
  then have "b64_char n \<in> set b64_alphabet"
    unfolding b64_char_def by (simp add: b64_alphabet_length)
  then show ?thesis using pad_not_in_alphabet by auto
qed

lemma div_mod_pack:
  fixes m x k :: nat
  assumes "x < k"
  shows "(m * k + x) div k = m" "(m * k + x) mod k = x"
  using assms by simp_all

lemma regroup:
  fixes a b c :: nat
  assumes "a < 256" "b < 256" "c < 256"
  shows "a div 4 * 4 + (a mod 4 * 16 + b div 16) div 16 = a"
    "(a mod 4 * 16 + b div 16) mod 16 * 16 + (b mod 16 * 4 + c div 64) div 4 = b"
    "(b mod 16 * 4 + c div 64) mod 4 * 64 + c mod 64 = c"
    "a div 4 * 4 + (a mod 4 * 16) div 16 = a"
    "(a mod 4 * 16 + b div 16) mod 16 * 16 + (b mod 16 * 4) div 4 = b"
proof -
  have b: "b div 16 < 16" and c: "c div 64 < 4"
    using assms by (simp_all add: less_mult_imp_div_less)
  show "a div 4 * 4 + (a mod 4 * 16 + b div 16) div 16 = a"
    by (simp only: div_mod_pack [OF b] div_mult_mod_eq)
  show "(a mod 4 * 16 + b div 16) mod 16 * 16 + (b mod 16 * 4 + c div 64) div 4 = b"
    by (simp only: div_mod_pack [OF b] div_mod_pack [OF c] div_mult_mod_eq)
  show "(b mod 16 * 4 + c div 64) mod 4 * 64 + c mod 64 = c"
    by (simp only: div_mod_pack [OF c] div_mult_mod_eq)
  show "a div 4 * 4 + (a mod 4 * 16) div 16 = a"
    by simp
  have "(b mod 16 * 4) div 4 = b mod 16" by simp
  then show "(a mod 4 * 16 + b div 16) mod 16 * 16 + (b mod 16 * 4) div 4 = b"
    by (simp only: div_mod_pack [OF b] div_mult_mod_eq)
qed

lemma sextets:
  fixes a b c :: nat
  assumes "a < 256" "b < 256" "c < 256"
  shows "a div 4 < 64" "a mod 4 * 16 + b div 16 < 64" "b mod 16 * 4 + c div 64 < 64"
    "c mod 64 < 64" "a mod 4 * 16 < 64" "b mod 16 * 4 < 64"
proof -
  have b: "b div 16 < 16" and c: "c div 64 < 4" and a: "a div 4 < 64"
    using assms by (simp_all add: less_mult_imp_div_less)
  have a4: "a mod 4 < 4" and b16: "b mod 16 < 16" by simp_all
  show "a div 4 < 64" by (rule a)
  show "a mod 4 * 16 + b div 16 < 64" using a4 b by linarith
  show "b mod 16 * 4 + c div 64 < 64" using b16 c by linarith
  show "c mod 64 < 64" by simp
  show "a mod 4 * 16 < 64" using a4 by linarith
  show "b mod 16 * 4 < 64" using b16 by linarith
qed

lemma b64_values_bytes:
  "list_all (\<lambda>n. n < 256) ns \<Longrightarrow> b64_values (b64_bytes ns) = Some ns"
proof (induction ns rule: b64_bytes.induct)
  case 1
  show ?case by simp
next
  case (2 a)
  then have a: "a < 256" by simp
  show ?case
    using sextets(1,5) [OF a a a] regroup(4) [OF a a a]
    by (simp add: index_of_b64_char)
next
  case (3 a b)
  then have a: "a < 256" and b: "b < 256" by simp_all
  show ?case
    using sextets(1,2,6) [OF a b b] regroup(1,5) [OF a b b]
    by (simp add: index_of_b64_char b64_char_not_pad)
next
  case (4 a b c r)
  then have a: "a < 256" and b: "b < 256" and c: "c < 256" and r: "list_all (\<lambda>n. n < 256) r"
    by simp_all
  have ih: "b64_values (b64_bytes r) = Some r" using 4 r by simp
  show ?case
    using sextets(1-4) [OF a b c] regroup(1-3) [OF a b c] ih
    by (simp add: index_of_b64_char b64_char_not_pad)
qed

lemma unat_byte: "unat (b :: byte) < 256"
  using unsigned_less [of b, where 'a = nat] by simp

lemma b64_roundtrip: "b64decode (b64encode data) = Some data"
proof -
  have "list_all (\<lambda>n. n < 256) (map unat data)"
    by (induction data) (simp_all add: unat_byte)
  then have "b64_values (b64_bytes (map unat data)) = Some (map unat data)"
    by (rule b64_values_bytes)
  then show ?thesis
    by (simp add: b64decode_def b64encode_def comp_def)
qed

lemma universal_newlines_id: "13 \<notin> set t \<Longrightarrow> universal_newlines t = t"
  by (induction t rule: universal_newlines.induct) auto

lemma read_reaches_file:
  assumes folder: "RESOURCE_FOLDER st = Some folder"
      and pre: "startswith u uri_prefix"
      and nul: "\<forall>p \<in> set (path_parts (joinpath folder (drop (length uri_prefix) u))).
                 CHR 0x00 \<notin> set p"
      and fp: "fp = resolve (cwd st) (joinpath folder (drop (length uri_prefix) u))"
      and guard: "startswith (path_str fp) (path_str (resolve (cwd st) folder))"
      and isfile: "stat st fp = Some (File bs)"
  shows "fs_read_resource st u =
     (if is_text_mime_type (get_mime_type (path_str fp)) then
        (case utf8_decode bs of
           None \<Rightarrow> Inl UnicodeDecodeError
         | Some t \<Rightarrow> Inr (ReadResourceResult [TextContent (universal_newlines t)]))
      else Inr (ReadResourceResult
                  [BlobContent (b64encode bs) (get_mime_type (path_str fp))]))"
proof -
  have ne: "u \<noteq> []" using pre by (auto simp add: startswith_def uri_prefix_def)
  show ?thesis
    unfolding fs_read_resource_def Let_def
    using ne pre nul guard isfile folder
    by (simp add: fp read_text_def read_bytes_def split: option.splits)
qed

text \<open>
  Claim C6, as the code has it. Let a read reach a regular file with the bytes \<open>bs\<close>
  (the URI has the prefix, the path has no NUL, the guard passes and the resolved path
  \<open>fp\<close> names the file), and let \<open>m\<close> be the MIME type detected for \<open>fp\<close>. If \<open>m\<close>
  starts with \<open>text/\<close> or is \<open>application/json\<close>, \<open>application/javascript\<close> or
  \<open>image/svg+xml\<close>, the read returns text content when \<open>bs\<close> is valid UTF-8: the decoded
  text with \<open>\r\n\<close> and \<open>\r\<close> turned into \<open>\n\<close>, which is the decoded text itself when
  it holds no \<open>\r\<close>; when \<open>bs\<close> is not valid UTF-8 the read raises
  \<open>UnicodeDecodeError\<close>. For every other \<open>m\<close> the read returns binary content tagged
  \<open>m\<close> whose base64 text decodes to exactly \<open>bs\<close>.
\<close>

theorem content_classification:
  assumes "RESOURCE_FOLDER st = Some folder"
      and "startswith u uri_prefix"
      and "\<forall>p \<in> set (path_parts (joinpath folder (drop (length uri_prefix) u))).
             CHR 0x00 \<notin> set p"
      and "fp = resolve (cwd st) (joinpath folder (drop (length uri_prefix) u))"
      and "startswith (path_str fp) (path_str (resolve (cwd st) folder))"
      and "stat st fp = Some (File bs)"
      and "m = get_mime_type (path_str fp)"
  shows "(startswith m ''text/'' \<or> m = ''application/json'' \<or> m = ''application/javascript''
          \<or> m = ''image/svg+xml'' \<longrightarrow>
            fs_read_resource st u =
              (case utf8_decode bs of
                 None \<Rightarrow> Inl UnicodeDecodeError
               | Some t \<Rightarrow> Inr (ReadResourceResult [TextContent (universal_newlines t)]))
            \<and> (\<forall>t. utf8_decode bs = Some t \<and> 13 \<notin> set t \<longrightarrow>
                  fs_read_resource st u = Inr (ReadResourceResult [TextContent t])))
       \<and> (\<not> (startswith m ''text/'' \<or> m = ''application/json''
               \<or> m = ''application/javascript'' \<or> m = ''image/svg+xml'') \<longrightarrow>
            fs_read_resource st u = Inr (ReadResourceResult [BlobContent (b64encode bs) m])
            \<and> b64decode (b64encode bs) = Some bs)"
proof -
  have r: "fs_read_resource st u =
     (if is_text_mime_type m then
        (case utf8_decode bs of
           None \<Rightarrow> Inl UnicodeDecodeError
         | Some t \<Rightarrow> Inr (ReadResourceResult [TextContent (universal_newlines t)]))
      else Inr (ReadResourceResult [BlobContent (b64encode bs) m]))"
    unfolding assms(7) using assms(1-6) by (rule read_reaches_file)
  show ?thesis
    unfolding r is_text_mime_type_def [symmetric]
    by (auto simp add: b64_roundtrip universal_newlines_id)
qed

lemma sample_notes_facts:
  "RESOURCE_FOLDER sample_state = Some (Path ''/data'')"
  "startswith ''file://resources/notes.txt'' uri_prefix"
  "\<forall>p \<in> set (path_parts (joinpath (Path ''/data'')
        (drop (length uri_prefix) ''file://resources/notes.txt''))). CHR 0x00 \<notin> set p"
  "\<lparr>is_absolute = True, path_parts = [''data'', ''notes.txt'']\<rparr>
     = resolve (cwd sample_state)
         (joinpath (Path ''/data'') (drop (length uri_prefix) ''file://resources/notes.txt''))"
  "startswith (path_str \<lparr>is_absolute = True, path_parts = [''data'', ''notes.txt'']\<rparr>)
     (path_str (resolve (cwd sample_state) (Path ''/data'')))"
  "stat sample_state \<lparr>is_absolute = True, path_parts = [''data'', ''notes.txt'']\<rparr>
     = Some (File (notes_bytes))"
  "''text/plain''
     = get_mime_type (path_str \<lparr>is_absolute = True, path_parts = [''data'', ''notes.txt'']\<rparr>)"
  by code_simp+

lemma sample_logo_facts:
  "startswith ''file://resources/logo.png'' uri_prefix"
  "\<forall>p \<in> set (path_parts (joinpath (Path ''/data'')
        (drop (length uri_prefix) ''file://resources/logo.png''))). CHR 0x00 \<notin> set p"
  "\<lparr>is_absolute = True, path_parts = [''data'', ''logo.png'']\<rparr>
     = resolve (cwd sample_state)
         (joinpath (Path ''/data'') (drop (length uri_prefix) ''file://resources/logo.png''))"
  "startswith (path_str \<lparr>is_absolute = True, path_parts = [''data'', ''logo.png'']\<rparr>)
     (path_str (resolve (cwd sample_state) (Path ''/data'')))"
  "stat sample_state \<lparr>is_absolute = True, path_parts = [''data'', ''logo.png'']\<rparr>
     = Some (File [0x89, 0x50, 0x4E, 0x47])"
  "''image/png''
     = get_mime_type (path_str \<lparr>is_absolute = True, path_parts = [''data'', ''logo.png'']\<rparr>)"
  by code_simp+

lemma sample_values:
  "utf8_decode (notes_bytes)
     = Some [111, 110, 101, 13, 10, 116, 119, 111]"
  "universal_newlines [111, 110, 101, 13, 10, 116, 119, 111] = [111, 110, 101, 10, 116, 119, 111]"
  "b64encode [0x89, 0x50, 0x4E, 0x47] = ''iVBORw==''"
  "startswith ''text/plain'' ''text/''"
  "\<not> (startswith ''image/png'' ''text/'' \<or> ''image/png'' = ''application/json''
      \<or> ''image/png'' = ''application/javascript'' \<or> ''image/png'' = ''image/svg+xml'')"
  by code_simp+

theorem content_classification_witness:
  "fs_read_resource sample_state ''file://resources/notes.txt''
     = Inr (ReadResourceResult [TextContent [111, 110, 101, 10, 116, 119, 111]])
   \<and> fs_read_resource sample_state ''file://resources/logo.png''
     = Inr (ReadResourceResult [BlobContent ''iVBORw=='' ''image/png''])
   \<and> b64decode ''iVBORw=='' = Some [0x89, 0x50, 0x4E, 0x47]"
proof -
  note n = content_classification [OF sample_notes_facts]
  note l = content_classification [OF sample_notes_facts(1) sample_logo_facts]
  show ?thesis
    using n l sample_values(4,5) by (simp add: sample_values(1,2,3))
qed

text \<open>
  The claim as written promises the decoded bytes for every text file. The file
  \<open>old/latin1.txt\<close> is typed \<open>text/plain\<close> and is not UTF-8: its read raises. The file
  \<open>notes.txt\<close> is typed \<open>text/plain\<close> and decodes to a text with \<open>\r\n\<close>: its read returns
  the text with \<open>\n\<close> in its place.
\<close>

theorem content_classification_counterexample:
  "get_mime_type (path_str (resolve (cwd sample_state)
       (joinpath (Path ''/data'') (drop (length uri_prefix) ''file://resources/old/latin1.txt''))))
     = ''text/plain''
   \<and> stat sample_state (resolve (cwd sample_state)
       (joinpath (Path ''/data'') (drop (length uri_prefix) ''file://resources/old/latin1.txt'')))
     = Some (File [0x63, 0x61, 0x66, 0xE9])
   \<and> fs_read_resource sample_state ''file://resources/old/latin1.txt'' = Inl UnicodeDecodeError
   \<and> get_mime_type (path_str (resolve (cwd sample_state)
       (joinpath (Path ''/data'') (drop (length uri_prefix) ''file://resources/notes.txt''))))
     = ''text/plain''
   \<and> utf8_decode (notes_bytes)
     = Some [111, 110, 101, 13, 10, 116, 119, 111]
   \<and> fs_read_resource sample_state ''file://resources/notes.txt''
     = Inr (ReadResourceResult [TextContent [111, 110, 101, 10, 116, 119, 111]])"
  by code_simp

text \<open>
  Claim C1 at the sibling directory. The resource folder is \<open>/srv/root\<close>; the URI
  \<open>file://resources/../root-evil/secret.txt\<close> resolves to
  \<open>/srv/root-evil/secret.txt\<close>, which is not below the folder. The guard compares the
  two paths as strings, \<open>/srv/root-evil/secret.txt\<close> starts with \<open>/srv/root\<close>, and the
  read returns the content of the file instead of the access-denied error.
\<close>

theorem path_traversal_sibling:
  "RESOURCE_FOLDER sibling_state = Some (Path ''/srv/root'')
   \<and> path_parts (resolve (cwd sibling_state) (Path ''/srv/root'')) = [''srv'', ''root'']
   \<and> path_parts (resolve (cwd sibling_state)
        (joinpath (Path ''/srv/root'')
           (drop (length uri_prefix) ''file://resources/../root-evil/secret.txt'')))
      = [''srv'', ''root-evil'', ''secret.txt'']
   \<and> take 2 [''srv'', ''root-evil'', ''secret.txt''] \<noteq> [''srv'', ''root'']
   \<and> fs_read_resource sibling_state ''file://resources/../root-evil/secret.txt''
      = Inr (ReadResourceResult [TextContent (map of_char ''top secret'')])"
  by code_simp

section \<open>Properties of the filesystem server: listing\<close>

subsection \<open>Joining and splitting paths\<close>

lemma str_join_append:
  "a \<noteq> [] \<Longrightarrow> b \<noteq> [] \<Longrightarrow> str_join sep (a @ b) = str_join sep a @ sep @ str_join sep b"
proof (induction sep a rule: str_join.induct)
  case (1 sep)
  then show ?case by simp
next
  case (2 sep p)
  then show ?case by (cases b) simp_all
next
  case (3 sep p q ps)
  then show ?case by simp
qed

lemma str_join_snoc:
  "qs \<noteq> [] \<Longrightarrow> str_join sep (qs @ [l]) = str_join sep qs @ sep @ l"
  by (simp add: str_join_append)

lemma str_split_join:
  "ps \<noteq> [] \<Longrightarrow> \<forall>p \<in> set ps. c \<notin> set p \<Longrightarrow> str_split c (str_join [c] ps) = ps"
proof (induction "[c]" ps rule: str_join.induct)
  case 1
  then show ?case by simp
next
  case (2 p)
  then show ?case by (simp add: str_split_no_sep)
next
  case (3 p q ps)
  then show ?case by (simp add: str_split_append)
qed

lemma str_split_snoc:
  "c \<notin> set l \<Longrightarrow> str_split c (a @ c # l) = str_split c a @ [l]"
proof (induction a)
  case Nil
  then show ?case by (simp add: str_split_no_sep)
next
  case (Cons x xs)
  then show ?case
    using str_split_nonempty [of c xs]
    by (cases "str_split c xs") auto
qed

lemma valid_nameD:
  assumes "valid_name n"
  shows "n \<noteq> []" "n \<noteq> ''.''" "n \<noteq> ''..''" "CHR ''/'' \<notin> set n" "CHR 0x00 \<notin> set n"
  using assms by (simp_all add: valid_name_def)



lemma path_name_Path_single:
  assumes "valid_name l"
  shows "path_name (Path l) = l"
  using assms
  by (simp add: Path_def path_name_def str_split_no_sep valid_name_def)

lemma path_name_Path_snoc:
  assumes "valid_name l"
  shows "path_name (Path (a @ CHR ''/'' # l)) = l"
proof -
  have "str_split CHR ''/'' (a @ CHR ''/'' # l) = str_split CHR ''/'' a @ [l]"
    using valid_nameD(4) [OF assms] by (rule str_split_snoc)
  then show ?thesis
    using valid_nameD(1,2) [OF assms] by (simp add: Path_def path_name_def)
qed

lemma path_name_path_str:
  assumes "valid_name l"
  shows "path_name (Path (path_str \<lparr>is_absolute = ab, path_parts = qs @ [l]\<rparr>)) = l"
proof (cases "qs = []")
  case True
  show ?thesis
  proof (cases ab)
    case True
    have "path_name (Path ([] @ CHR ''/'' # l)) = l" using assms by (rule path_name_Path_snoc)
    then show ?thesis using True \<open>qs = []\<close> by (simp add: path_str_def)
  next
    case False
    then show ?thesis using \<open>qs = []\<close> path_name_Path_single [OF assms] by (simp add: path_str_def)
  qed
next
  case False
  have j: "str_join ''/'' (qs @ [l]) = str_join ''/'' qs @ CHR ''/'' # l"
    using str_join_snoc [OF False, of "''/''" l] by simp
  show ?thesis
  proof (cases ab)
    case True
    have "path_name (Path ((''/'' @ str_join ''/'' qs) @ CHR ''/'' # l)) = l"
      using assms by (rule path_name_Path_snoc)
    then show ?thesis using True j by (simp add: path_str_def)
  next
    case False
    have "path_name (Path (str_join ''/'' qs @ CHR ''/'' # l)) = l"
      using assms by (rule path_name_Path_snoc)
    then show ?thesis using False j by (simp add: path_str_def)
  qed
qed

lemma get_mime_type_name:
  "path_name (Path s) = path_name (Path s') \<Longrightarrow> get_mime_type s = get_mime_type s'"
  by (simp add: get_mime_type_def path_suffix_def)

lemma get_mime_type_path_str:
  assumes "rel \<noteq> []" "list_all valid_name rel"
  shows "get_mime_type (path_str \<lparr>is_absolute = ab, path_parts = qs @ rel\<rparr>)
           = get_mime_type (last rel)"
proof -
  have v: "valid_name (last rel)" using assms by (simp add: list_all_iff)
  have "qs @ rel = (qs @ butlast rel) @ [last rel]" using assms(1) by simp
  then have "path_name (Path (path_str \<lparr>is_absolute = ab, path_parts = qs @ rel\<rparr>)) = last rel"
    using path_name_path_str [OF v, of ab "qs @ butlast rel"] by simp
  then show ?thesis
    using path_name_Path_single [OF v] by (intro get_mime_type_name) simp
qed

subsection \<open>Resolving, walking and looking up\<close>



lemma walk_resolve: "walk fs cur ps = Some q \<Longrightarrow> q = resolve_parts cur ps"
  by (induction ps arbitrary: cur) (auto split: option.splits node.splits)




lemma wf_entry:
  assumes "wf_node (Dir es)" "map_of es c = Some n"
  shows "valid_name c" "wf_node n"
proof -
  have "(c, n) \<in> set es" using assms(2) by (rule map_of_SomeD)
  then show "valid_name c" "wf_node n"
    using assms(1) by (auto simp add: list_all_iff)
qed

lemma wf_lookup:
  "wf_node n \<Longrightarrow> lookup n ps = Some m \<Longrightarrow> wf_node m \<and> list_all valid_name ps"
proof (induction n ps rule: lookup.induct)
  case (1 n)
  then show ?case by simp
next
  case (2 bs c cs)
  then show ?case by simp
next
  case (3 es c cs)
  then obtain k where k: "map_of es c = Some k" "lookup k cs = Some m"
    by (cases "map_of es c") auto
  have "valid_name c" "wf_node k" using wf_entry [OF "3.prems"(1) k(1)] by simp_all
  then show ?case using "3.IH" [OF k(1)] k(2) by simp
qed


subsection \<open>\<open>rglob\<close>\<close>

lemma rglob_nonempty: "rel \<in> set (rglob d) \<Longrightarrow> rel \<noteq> []"
  by (cases d) auto

lemma rglob_complete:
  "lookup d rel = Some n \<Longrightarrow> rel \<noteq> [] \<Longrightarrow> rel \<in> set (rglob d)"
proof (induction d rel rule: lookup.induct)
  case (1 n)
  then show ?case by simp
next
  case (2 bs c cs)
  then show ?case by simp
next
  case (3 es c cs)
  then obtain k where k: "map_of es c = Some k" "lookup k cs = Some n"
    by (cases "map_of es c") auto
  have mem: "(c, k) \<in> set es" using k(1) by (rule map_of_SomeD)
  show ?case
  proof (cases "cs = []")
    case True
    then show ?thesis using mem by force
  next
    case False
    then have "cs \<in> set (rglob k)" using "3.IH" [OF k(1)] k(2) by simp
    then show ?thesis using mem by force
  qed
qed

lemma rglob_sound:
  "wf_node d \<Longrightarrow> rel \<in> set (rglob d) \<Longrightarrow> \<exists>n. lookup d rel = Some n"
proof (induction d arbitrary: rel rule: rglob.induct)
  case (1 bs)
  then show ?case by simp
next
  case (2 es)
  have dist: "distinct (map fst es)" using "2.prems"(1) by simp
  from "2.prems"(2) consider e where "e \<in> set es" "rel = [fst e]"
    | e r where "e \<in> set es" "r \<in> set (rglob (snd e))" "rel = fst e # r"
    by auto
  then show ?case
  proof cases
    case 1
    then have "map_of es (fst e) = Some (snd e)" using dist by simp
    then show ?thesis using 1 by simp
  next
    case 2
    then have m: "map_of es (fst e) = Some (snd e)" using dist by simp
    have "wf_node (snd e)" using "2.prems"(1) 2(1) by (auto simp add: list_all_iff)
    then obtain n where "lookup (snd e) r = Some n" using "2.IH" [OF 2(1)] 2(2) by blast
    then show ?thesis using 2 m by simp
  qed
qed

lemma distinct_children:
  assumes "distinct (map fst es)"
      and "\<forall>e \<in> set es. distinct (rglob (snd e))"
  shows "distinct (concat (map (\<lambda>e. map ((#) (fst e)) (rglob (snd e))) es))"
  using assms
proof (induction es)
  case Nil
  show ?case by simp
next
  case (Cons e es)
  have "distinct (map ((#) (fst e)) (rglob (snd e)))"
    using Cons.prems(2) by (simp add: distinct_map)
  moreover have "distinct (concat (map (\<lambda>e. map ((#) (fst e)) (rglob (snd e))) es))"
    using Cons by simp
  moreover have "set (map ((#) (fst e)) (rglob (snd e)))
      \<inter> set (concat (map (\<lambda>e. map ((#) (fst e)) (rglob (snd e))) es)) = {}"
    using Cons.prems(1) by auto
  ultimately show ?case by simp
qed

lemma rglob_distinct: "wf_node d \<Longrightarrow> distinct (rglob d)"
proof (induction d rule: rglob.induct)
  case (1 bs)
  show ?case by simp
next
  case (2 es)
  have dist: "distinct (map fst es)" using "2.prems" by simp
  have kids: "\<forall>e \<in> set es. distinct (rglob (snd e))"
    using 2 by (auto simp add: list_all_iff)
  have a: "distinct (map (\<lambda>e. [fst e]) es)"
    using dist by (simp add: distinct_map inj_on_def)
  have b: "distinct (concat (map (\<lambda>e. map ((#) (fst e)) (rglob (snd e))) es))"
    using dist kids by (rule distinct_children)
  have c: "set (map (\<lambda>e. [fst e]) es)
      \<inter> set (concat (map (\<lambda>e. map ((#) (fst e)) (rglob (snd e))) es)) = {}"
    using rglob_nonempty by fastforce
  show ?case using a b c by simp
qed

subsection \<open>The listing\<close>

lemma st_size_formats:
  assumes "length bs < 2 ^ 63"
  shows "\<exists>f. format_file_size (int (length bs)) = Inr f"
proof -
  have "int (length bs) < 2 ^ 63" using assms by (simp add: of_nat_less_numeral_power_cancel_iff)
  moreover have "(2::int) ^ 63 \<le> 2 ^ 1024 - 2 ^ 970" by simp
  ultimately have "int (length bs) < 2 ^ 1024 - 2 ^ 970" by linarith
  then have "format_file_size (int (length bs)) =
     (let y = rat_of_nat (round53 (nat (int (length bs))));
          k = (if y < 1024 then 0 else if y < 1024 ^ 2 then 1
               else if y < 1024 ^ 3 then 2 else 3);
          t = nat (round_half_even (y / 1024 ^ k * 10))
      in Inr (show_nat (t div 10) @ ''.'' @ [''0123456789'' ! (t mod 10)]
              @ '' '' @ [''B'', ''KB'', ''MB'', ''GB''] ! k))"
    by (intro format_file_size_general) simp_all
  then show ?thesis unfolding Let_def by (rule exI)
qed

lemma make_resource_fields:
  assumes "format_file_size (int (length bs)) = Inr f" "rel \<noteq> []" "list_all valid_name rel"
  shows "make_resource folder rel bs =
           Inr \<lparr>uri = ''file://resources/'' @ str_join ''/'' rel, name = last rel,
                mimeType = get_mime_type (last rel),
                description = ''File: '' @ str_join ''/'' rel @ '' ('' @ f @ '')''\<rparr>"
proof -
  have m: "get_mime_type (path_str \<lparr>is_absolute = is_absolute folder,
                                   path_parts = path_parts folder @ rel\<rparr>)
             = get_mime_type (last rel)"
    using assms(2,3) by (rule get_mime_type_path_str)
  show ?thesis
    unfolding make_resource_def Let_def m
    using assms(1,2) by (simp add: path_str_def path_name_def)
qed

lemma list_loop_result:
  assumes "\<forall>rel \<in> set rels. \<forall>bs. lookup d rel = Some (File bs) \<longrightarrow>
             (\<exists>r. make_resource folder rel bs = Inr r)"
  shows "list_loop folder d rels acc =
     Inr (acc @ concat (map (\<lambda>rel. case lookup d rel of
                                     Some (File bs) \<Rightarrow>
                                       (case make_resource folder rel bs of
                                          Inr r \<Rightarrow> [r] | Inl e \<Rightarrow> [])
                                   | _ \<Rightarrow> []) rels))"
  using assms
proof (induction rels arbitrary: acc)
  case Nil
  show ?case by simp
next
  case (Cons rel rels)
  show ?case
  proof (cases "lookup d rel")
    case None
    then show ?thesis using Cons by simp
  next
    case (Some n)
    show ?thesis
    proof (cases n)
      case (File bs)
      then obtain r where r: "make_resource folder rel bs = Inr r"
        using Cons.prems Some by auto
      show ?thesis using Some File r Cons by simp
    next
      case (Dir es)
      then show ?thesis using Some Cons by simp
    qed
  qed
qed

lemma filter_concat_single:
  assumes "distinct xs" "x0 \<in> set xs" "g x0 = [r0]" "P r0"
      and "\<forall>x \<in> set xs. x \<noteq> x0 \<longrightarrow> (\<forall>r \<in> set (g x). \<not> P r)"
  shows "filter P (concat (map g xs)) = [r0]"
  using assms
proof (induction xs)
  case Nil
  then show ?case by simp
next
  case (Cons x xs)
  show ?case
  proof (cases "x = x0")
    case True
    then have "x0 \<notin> set xs" using Cons.prems(1) by simp
    then have "\<forall>y \<in> set xs. \<forall>r \<in> set (g y). \<not> P r" using Cons.prems(5) by auto
    then have "filter P (concat (map g xs)) = []" by (auto simp add: filter_empty_conv)
    then show ?thesis using True Cons.prems(3,4) by simp
  next
    case False
    then have "filter P (g x) = []" using Cons.prems(5) by (auto simp add: filter_empty_conv)
    moreover have "filter P (concat (map g xs)) = [r0]"
      using Cons False by auto
    ultimately show ?thesis by simp
  qed
qed

lemma join_inject:
  assumes "a \<noteq> []" "list_all valid_name a" "b \<noteq> []" "list_all valid_name b"
      and "str_join ''/'' a = str_join ''/'' b"
  shows "a = b"
proof -
  have na: "\<forall>p \<in> set a. CHR ''/'' \<notin> set p" and nb: "\<forall>p \<in> set b. CHR ''/'' \<notin> set p"
    using assms(2,4) by (auto simp add: list_all_iff valid_name_def)
  have "a = str_split CHR ''/'' (str_join [CHR ''/''] a)"
    by (rule str_split_join [OF assms(1) na, symmetric])
  also have "\<dots> = str_split CHR ''/'' (str_join [CHR ''/''] b)"
    by (simp only: assms(5))
  also have "\<dots> = b"
    by (rule str_split_join [OF assms(3) nb])
  finally show ?thesis .
qed

subsection \<open>Reading what is listed\<close>

lemma stat_folder:
  assumes "stat st folder = Some d"
  obtains q where "walk (tree st) (if is_absolute folder then [] else cwd st) (path_parts folder) = Some q"
    and "lookup (tree st) q = Some d"
    and "resolve (cwd st) folder = \<lparr>is_absolute = True, path_parts = q\<rparr>"
proof -
  obtain q where w: "walk (tree st) (if is_absolute folder then [] else cwd st) (path_parts folder) = Some q"
    and l: "lookup (tree st) q = Some d"
    using assms unfolding stat_def by (auto split: option.splits)
  have "q = resolve_parts (if is_absolute folder then [] else cwd st) (path_parts folder)"
    using w by (rule walk_resolve)
  then have "resolve (cwd st) folder = \<lparr>is_absolute = True, path_parts = q\<rparr>"
    by (simp add: resolve_def)
  then show ?thesis using that w l by blast
qed


lemma listed_file:
  assumes wfd: "wf_node d" and f: "lookup d rel = Some (File bs)" and ne: "rel \<noteq> []"
  obtains formatted where "format_file_size (int (length bs)) = Inr formatted"
    and "make_resource folder rel bs =
           Inr \<lparr>uri = ''file://resources/'' @ str_join ''/'' rel, name = last rel,
                mimeType = get_mime_type (last rel),
                description = ''File: '' @ str_join ''/'' rel @ '' ('' @ formatted @ '')''\<rparr>"
    and "list_all valid_name rel"
proof -
  have "wf_node (File bs)" and v: "list_all valid_name rel"
    using wf_lookup [OF wfd f] by simp_all
  then have "length bs < 2 ^ 63" by simp
  then obtain formatted where fm: "format_file_size (int (length bs)) = Inr formatted"
    using st_size_formats by blast
  show ?thesis using that [OF fm make_resource_fields [OF fm ne v] v] .
qed

lemma listing:
  assumes wf: "wf_node (tree st)"
      and folder: "RESOURCE_FOLDER st = Some folder"
      and d: "stat st folder = Some (Dir es)"
  shows "fs_list_resources st =
     Inr (concat (map (\<lambda>rel. case lookup (Dir es) rel of
                                 Some (File bs) \<Rightarrow>
                                   (case make_resource folder rel bs of
                                      Inr r \<Rightarrow> [r] | Inl e \<Rightarrow> [])
                               | _ \<Rightarrow> []) (rglob (Dir es))))"
proof -
  obtain q where "lookup (tree st) q = Some (Dir es)" using stat_folder [OF d] by blast
  then have wfd: "wf_node (Dir es)" using wf_lookup [OF wf] by blast
  have "\<forall>rel \<in> set (rglob (Dir es)). \<forall>bs. lookup (Dir es) rel = Some (File bs) \<longrightarrow>
          (\<exists>r. make_resource folder rel bs = Inr r)"
  proof (intro ballI allI impI)
    fix rel bs
    assume "rel \<in> set (rglob (Dir es))" and f: "lookup (Dir es) rel = Some (File bs)"
    then have "rel \<noteq> []" using rglob_nonempty by blast
    from listed_file [OF wfd f this, of folder]
    show "\<exists>r. make_resource folder rel bs = Inr r" by blast
  qed
  then have "list_loop folder (Dir es) (rglob (Dir es)) [] =
     Inr ([] @ concat (map (\<lambda>rel. case lookup (Dir es) rel of
                                 Some (File bs) \<Rightarrow>
                                   (case make_resource folder rel bs of
                                      Inr r \<Rightarrow> [r] | Inl e \<Rightarrow> [])
                               | _ \<Rightarrow> []) (rglob (Dir es))))"
    by (rule list_loop_result)
  then show ?thesis using folder d by (simp add: fs_list_resources_def)
qed

lemma loop_body_member:
  assumes "r \<in> set (case lookup d x of
                        Some (File bs) \<Rightarrow>
                          (case make_resource folder x bs of Inr r \<Rightarrow> [r] | Inl e \<Rightarrow> [])
                      | _ \<Rightarrow> [])"
  shows "\<exists>bs. lookup d x = Some (File bs) \<and> make_resource folder x bs = Inr r"
proof (cases "lookup d x")
  case None
  then show ?thesis using assms by simp
next
  case (Some n)
  show ?thesis
  proof (cases n)
    case (File bs)
    then show ?thesis using assms Some by (cases "make_resource folder x bs") simp_all
  next
    case (Dir es)
    then show ?thesis using assms Some by simp
  qed
qed


lemma listing_unique:
  assumes wf: "wf_node (tree st)"
      and folder: "RESOURCE_FOLDER st = Some folder"
      and d: "stat st folder = Some (Dir es)"
      and f: "lookup (Dir es) rel = Some (File bs)"
  shows "\<exists>rs formatted.
           fs_list_resources st = Inr rs
         \<and> format_file_size (int (length bs)) = Inr formatted
         \<and> filter (\<lambda>r. uri r = ''file://resources/'' @ str_join ''/'' rel) rs
             = [\<lparr>uri = ''file://resources/'' @ str_join ''/'' rel, name = last rel,
                 mimeType = get_mime_type (last rel),
                 description = ''File: '' @ str_join ''/'' rel @ '' ('' @ formatted @ '')''\<rparr>]"
proof -
  obtain q where "lookup (tree st) q = Some (Dir es)" using stat_folder [OF d] by blast
  then have wfd: "wf_node (Dir es)" using wf_lookup [OF wf] by blast
  have ne: "rel \<noteq> []" using f by auto
  define g where "g = (\<lambda>rel. case lookup (Dir es) rel of
                                 Some (File bs) \<Rightarrow>
                                   (case make_resource folder rel bs of
                                      Inr r \<Rightarrow> [r] | Inl e \<Rightarrow> [])
                               | _ \<Rightarrow> [])"
  obtain formatted where fm: "format_file_size (int (length bs)) = Inr formatted"
    and mr: "make_resource folder rel bs =
           Inr \<lparr>uri = ''file://resources/'' @ str_join ''/'' rel, name = last rel,
                mimeType = get_mime_type (last rel),
                description = ''File: '' @ str_join ''/'' rel @ '' ('' @ formatted @ '')''\<rparr>"
    and v: "list_all valid_name rel"
    using listed_file [OF wfd f ne, of folder] by blast
  define r0 where "r0 = \<lparr>uri = ''file://resources/'' @ str_join ''/'' rel, name = last rel,
                mimeType = get_mime_type (last rel),
                description = ''File: '' @ str_join ''/'' rel @ '' ('' @ formatted @ '')''\<rparr>"
  have l: "fs_list_resources st = Inr (concat (map g (rglob (Dir es))))"
    unfolding g_def using wf folder d by (rule listing)
  have dist: "distinct (rglob (Dir es))" using wfd by (rule rglob_distinct)
  have mem: "rel \<in> set (rglob (Dir es))" using f ne by (rule rglob_complete)
  have g0: "g rel = [r0]" using f mr by (simp add: g_def r0_def)
  have p0: "uri r0 = ''file://resources/'' @ str_join ''/'' rel" by (simp add: r0_def)
  have others: "\<forall>x \<in> set (rglob (Dir es)). x \<noteq> rel \<longrightarrow>
      (\<forall>r \<in> set (g x). \<not> uri r = ''file://resources/'' @ str_join ''/'' rel)"
  proof (intro ballI impI)
    fix x r
    assume x: "x \<in> set (rglob (Dir es))" and neq: "x \<noteq> rel" and r: "r \<in> set (g x)"
    have xne: "x \<noteq> []" using x rglob_nonempty by blast
    from r obtain bs' where f': "lookup (Dir es) x = Some (File bs')"
      and mk: "make_resource folder x bs' = Inr r"
      unfolding g_def using loop_body_member by blast
    obtain fm' where mr': "make_resource folder x bs' =
           Inr \<lparr>uri = ''file://resources/'' @ str_join ''/'' x, name = last x,
                mimeType = get_mime_type (last x),
                description = ''File: '' @ str_join ''/'' x @ '' ('' @ fm' @ '')''\<rparr>"
      and vx: "list_all valid_name x"
      using listed_file [OF wfd f' xne, of folder] by blast
    have "r = \<lparr>uri = ''file://resources/'' @ str_join ''/'' x, name = last x,
                mimeType = get_mime_type (last x),
                description = ''File: '' @ str_join ''/'' x @ '' ('' @ fm' @ '')''\<rparr>"
      using mk unfolding mr' by (simp only: sum.inject)
    then have ur: "uri r = ''file://resources/'' @ str_join ''/'' x"
      by (simp only: Resource.select_convs)
    show "\<not> uri r = ''file://resources/'' @ str_join ''/'' rel"
    proof
      assume "uri r = ''file://resources/'' @ str_join ''/'' rel"
      then have "str_join ''/'' x = str_join ''/'' rel" using ur by simp
      then have "x = rel" using join_inject [OF xne vx ne v] by simp
      then show False using neq by simp
    qed
  qed
  have "filter (\<lambda>r. uri r = ''file://resources/'' @ str_join ''/'' rel)
          (concat (map g (rglob (Dir es)))) = [r0]"
    using dist mem g0 p0 others by (rule filter_concat_single)
  then show ?thesis using l fm unfolding r0_def by blast
qed


lemma get_mime_type_table:
  "get_mime_type s =
     (case map_of mime_types (lower (path_suffix (Path s))) of
        Some m \<Rightarrow> m | None \<Rightarrow> ''application/octet-stream'')"
  by (simp add: get_mime_type_def)

lemma sample_mime_types:
  "get_mime_type ''notes.txt'' = ''text/plain''"
  "get_mime_type ''logo.png'' = ''image/png''"
  "get_mime_type ''latin1.txt'' = ''text/plain''"
  by code_simp+

text \<open>
  Claim C7. In a well-formed filesystem whose resource folder is a directory, let
  \<open>rel\<close> be the path, relative to the folder, of a regular file with the bytes \<open>bs\<close>.
  The listing returns, and exactly one of its resources has the URI
  \<open>file://resources/\<close> followed by the components of \<open>rel\<close> joined with \<open>/\<close>. Its
  name is the file's name, its MIME type is the entry of the extension table for the
  lower-cased suffix of the name (\<open>application/octet-stream\<close> without an entry), and its
  description holds the path and, in brackets, the size as \<open>format_file_size\<close> prints
  it. For \<open>notes.txt\<close> in the folder the URI is \<open>file://resources/notes.txt\<close> and the
  type is \<open>text/plain\<close>.
\<close>

theorem listing_entry:
  assumes "wf_node (tree st)"
      and "RESOURCE_FOLDER st = Some folder"
      and "stat st folder = Some (Dir es)"
      and "lookup (Dir es) rel = Some (File bs)"
  shows "\<exists>rs formatted.
           fs_list_resources st = Inr rs
         \<and> format_file_size (int (length bs)) = Inr formatted
         \<and> filter (\<lambda>r. uri r = ''file://resources/'' @ str_join ''/'' rel) rs
             = [\<lparr>uri = ''file://resources/'' @ str_join ''/'' rel, name = last rel,
                 mimeType = (case map_of mime_types (lower (path_suffix (Path (last rel)))) of
                               Some m \<Rightarrow> m | None \<Rightarrow> ''application/octet-stream''),
                 description = ''File: '' @ str_join ''/'' rel @ '' ('' @ formatted @ '')''\<rparr>]
         \<and> (rel = [''notes.txt''] \<longrightarrow>
               filter (\<lambda>r. uri r = ''file://resources/notes.txt'') rs
                 = [\<lparr>uri = ''file://resources/notes.txt'', name = ''notes.txt'',
                     mimeType = ''text/plain'',
                     description = ''File: notes.txt ('' @ formatted @ '')''\<rparr>])"
proof -
  obtain rs formatted where l: "fs_list_resources st = Inr rs"
    and fm: "format_file_size (int (length bs)) = Inr formatted"
    and u: "filter (\<lambda>r. uri r = ''file://resources/'' @ str_join ''/'' rel) rs
             = [\<lparr>uri = ''file://resources/'' @ str_join ''/'' rel, name = last rel,
                 mimeType = get_mime_type (last rel),
                 description = ''File: '' @ str_join ''/'' rel @ '' ('' @ formatted @ '')''\<rparr>]"
    using listing_unique [OF assms] by blast
  have nt: "rel = [''notes.txt''] \<longrightarrow>
               filter (\<lambda>r. uri r = ''file://resources/notes.txt'') rs
                 = [\<lparr>uri = ''file://resources/notes.txt'', name = ''notes.txt'',
                     mimeType = ''text/plain'',
                     description = ''File: notes.txt ('' @ formatted @ '')''\<rparr>]"
  proof
    assume "rel = [''notes.txt'']"
    then show "filter (\<lambda>r. uri r = ''file://resources/notes.txt'') rs
                 = [\<lparr>uri = ''file://resources/notes.txt'', name = ''notes.txt'',
                     mimeType = ''text/plain'',
                     description = ''File: notes.txt ('' @ formatted @ '')''\<rparr>]"
      using u by (simp add: sample_mime_types(1))
  qed
  show ?thesis
    using l fm u nt unfolding get_mime_type_table by blast
qed

subsection \<open>The sample folder\<close>

lemma sample_folder: "RESOURCE_FOLDER sample_state = Some (Path ''/data'')"
  by (simp add: sample_state_def)

lemma sample_stat:
  "stat sample_state (Path ''/data'') =
     Some (Dir [(''notes.txt'', File notes_bytes),
                (''logo.png'', File [0x89, 0x50, 0x4E, 0x47]),
                (''old'', Dir [(''latin1.txt'', File [0x63, 0x61, 0x66, 0xE9])])])"
  by code_simp

lemma sample_wf: "wf_node (tree sample_state)"
  by (simp add: sample_state_def valid_name_def notes_bytes_def ascii_bytes_def)

lemma format_file_size_8: "format_file_size 8 = Inr ''8.0 B''"
  by (simp add: format_file_size_small size_loop_closed format_1f_def round_half_even_def
      suffixes_def Let_def)

lemma format_file_size_4: "format_file_size 4 = Inr ''4.0 B''"
  by (simp add: format_file_size_small size_loop_closed format_1f_def round_half_even_def
      suffixes_def Let_def)

lemma sample_sizes:
  "format_file_size (int (length notes_bytes)) = Inr ''8.0 B''"
  "format_file_size (int (length [0x89, 0x50, 0x4E, 0x47 :: byte])) = Inr ''4.0 B''"
  "format_file_size (int (length [0x63, 0x61, 0x66, 0xE9 :: byte])) = Inr ''4.0 B''"
  by (simp_all add: notes_bytes_def ascii_bytes_def format_file_size_8 format_file_size_4)

lemma sample_resources:
  "make_resource (Path ''/data'') [''notes.txt''] notes_bytes =
     Inr \<lparr>uri = ''file://resources/notes.txt'', name = ''notes.txt'',
          mimeType = ''text/plain'', description = ''File: notes.txt (8.0 B)''\<rparr>"
  "make_resource (Path ''/data'') [''logo.png''] [0x89, 0x50, 0x4E, 0x47] =
     Inr \<lparr>uri = ''file://resources/logo.png'', name = ''logo.png'',
          mimeType = ''image/png'', description = ''File: logo.png (4.0 B)''\<rparr>"
  "make_resource (Path ''/data'') [''old'', ''latin1.txt''] [0x63, 0x61, 0x66, 0xE9] =
     Inr \<lparr>uri = ''file://resources/old/latin1.txt'', name = ''latin1.txt'',
          mimeType = ''text/plain'', description = ''File: old/latin1.txt (4.0 B)''\<rparr>"
proof -
  show "make_resource (Path ''/data'') [''notes.txt''] notes_bytes =
     Inr \<lparr>uri = ''file://resources/notes.txt'', name = ''notes.txt'',
          mimeType = ''text/plain'', description = ''File: notes.txt (8.0 B)''\<rparr>"
    using make_resource_fields [OF sample_sizes(1), of "[''notes.txt'']" "Path ''/data''"]
    by (simp add: valid_name_def sample_mime_types)
  show "make_resource (Path ''/data'') [''logo.png''] [0x89, 0x50, 0x4E, 0x47] =
     Inr \<lparr>uri = ''file://resources/logo.png'', name = ''logo.png'',
          mimeType = ''image/png'', description = ''File: logo.png (4.0 B)''\<rparr>"
    using make_resource_fields [OF sample_sizes(2), of "[''logo.png'']" "Path ''/data''"]
    by (simp add: valid_name_def sample_mime_types)
  show "make_resource (Path ''/data'') [''old'', ''latin1.txt''] [0x63, 0x61, 0x66, 0xE9] =
     Inr \<lparr>uri = ''file://resources/old/latin1.txt'', name = ''latin1.txt'',
          mimeType = ''text/plain'', description = ''File: old/latin1.txt (4.0 B)''\<rparr>"
    using make_resource_fields [OF sample_sizes(3), of "[''old'', ''latin1.txt'']" "Path ''/data''"]
    by (simp add: valid_name_def sample_mime_types)
qed

lemma sample_listing:
  "fs_list_resources sample_state =
     Inr [\<lparr>uri = ''file://resources/notes.txt'', name = ''notes.txt'',
           mimeType = ''text/plain'', description = ''File: notes.txt (8.0 B)''\<rparr>,
          \<lparr>uri = ''file://resources/logo.png'', name = ''logo.png'',
           mimeType = ''image/png'', description = ''File: logo.png (4.0 B)''\<rparr>,
          \<lparr>uri = ''file://resources/old/latin1.txt'', name = ''latin1.txt'',
           mimeType = ''text/plain'', description = ''File: old/latin1.txt (4.0 B)''\<rparr>]"
  unfolding fs_list_resources_def sample_folder
  by (simp add: sample_stat sample_resources)

theorem listing_entry_witness:
  "wf_node (tree sample_state)
   \<and> RESOURCE_FOLDER sample_state = Some (Path ''/data'')
   \<and> fs_list_resources sample_state =
       Inr [\<lparr>uri = ''file://resources/notes.txt'', name = ''notes.txt'',
             mimeType = ''text/plain'', description = ''File: notes.txt (8.0 B)''\<rparr>,
            \<lparr>uri = ''file://resources/logo.png'', name = ''logo.png'',
             mimeType = ''image/png'', description = ''File: logo.png (4.0 B)''\<rparr>,
            \<lparr>uri = ''file://resources/old/latin1.txt'', name = ''latin1.txt'',
             mimeType = ''text/plain'', description = ''File: old/latin1.txt (4.0 B)''\<rparr>]
   \<and> filter (\<lambda>r. uri r = ''file://resources/notes.txt'')
         [\<lparr>uri = ''file://resources/notes.txt'', name = ''notes.txt'',
             mimeType = ''text/plain'', description = ''File: notes.txt (8.0 B)''\<rparr>,
            \<lparr>uri = ''file://resources/logo.png'', name = ''logo.png'',
             mimeType = ''image/png'', description = ''File: logo.png (4.0 B)''\<rparr>,
            \<lparr>uri = ''file://resources/old/latin1.txt'', name = ''latin1.txt'',
             mimeType = ''text/plain'', description = ''File: old/latin1.txt (4.0 B)''\<rparr>]
       = [\<lparr>uri = ''file://resources/notes.txt'', name = ''notes.txt'',
           mimeType = ''text/plain'', description = ''File: notes.txt (8.0 B)''\<rparr>]"
proof -
  have f: "lookup (Dir [(''notes.txt'', File notes_bytes),
                (''logo.png'', File [0x89, 0x50, 0x4E, 0x47]),
                (''old'', Dir [(''latin1.txt'', File [0x63, 0x61, 0x66, 0xE9])])])
             [''notes.txt''] = Some (File notes_bytes)"
    by simp
  obtain rs formatted where l: "fs_list_resources sample_state = Inr rs"
    and fm: "format_file_size (int (length notes_bytes)) = Inr formatted"
    and n: "[''notes.txt''] = [''notes.txt''] \<longrightarrow>
               filter (\<lambda>r. uri r = ''file://resources/notes.txt'') rs
                 = [\<lparr>uri = ''file://resources/notes.txt'', name = ''notes.txt'',
                     mimeType = ''text/plain'',
                     description = ''File: notes.txt ('' @ formatted @ '')''\<rparr>]"
    using listing_entry [OF sample_wf sample_folder sample_stat f] by blast
  have "formatted = ''8.0 B''" using fm sample_sizes(1) by simp
  then show ?thesis
    using l n sample_wf sample_folder sample_listing by simp
qed







end
